theory Spec2Isabelle
  imports Main "HOL-Library.AList"
begin

section \<open>Python values and the objects of the graph-database driver\<close>

text \<open>
  The module \<^verbatim>\<open>helpers/neo4j_for_adk.py\<close> receives values of the Neo4j driver and
  turns them into plain Python structures. The values are modelled as a tagged union
  with one constructor for every run-time class that \<^verbatim>\<open>to_python\<close> tells apart, and
  a few more for the classes it leaves alone.

  A Python \<^verbatim>\<open>dict\<close> is an association list in insertion order with pairwise
  distinct keys; the items of a driver \<^verbatim>\<open>Record\<close> are an association list too, but a
  record may name two columns alike. Keys are strings (\<^verbatim>\<open>to_python\<close> never looks at a
  key). A node carries what the code reads from it: \<^verbatim>\<open>id\<close>, the labels in the
  order \<^verbatim>\<open>list(value.labels)\<close> yields them, and the property items that
  \<^verbatim>\<open>dict(value)\<close> yields. The \<^verbatim>\<open>start_node\<close> and \<^verbatim>\<open>end_node\<close> of a relationship
  are a node or \<^verbatim>\<open>None\<close>: the driver binds them when it delivers a relationship of
  a query result, and leaves them \<^verbatim>\<open>None\<close> in a relationship that is not bound. A
  temporal object is given by the string that the method the code calls on it returns:
  \<^verbatim>\<open>iso_format()\<close> for a \<^verbatim>\<open>DateTime\<close>, \<^verbatim>\<open>str\<close> for the others.

  \<open>PInstance\<close> is an instance of a class that derives from several classes: each
  facet is the object as one of its base classes presents it. Such an object passes
  the \<^verbatim>\<open>isinstance\<close> test of every class one of its facets passes, and a branch
  that has tested for a class reads the object through the first facet of that class.
\<close>

type_synonym 'v items = "(string \<times> 'v) list"

datatype 'v node =
  Node (node_id: int) (labels: "string list") (node_properties: "'v items")

datatype 'v relationship =
  Relationship (rel_id: int) (rel_type: string)
    (start_node: "'v node option") (end_node: "'v node option") (rel_properties: "'v items")

datatype pyval =
    PNone
  | PBool bool
  | PInt int
  | PFloat string
  | PStr string
  | POther string
  | PTuple "pyval list"
  | PList (elements: "pyval list")
  | PDict (items: "pyval items")
  | PRecord (items: "pyval items")
  | PNode (the_node: "pyval node")
  | PRelationship (the_relationship: "pyval relationship")
  | PPath (nodes: "pyval node list") (relationships: "pyval relationship list")
  | PDateTime (iso_format: string)
  | PDate (str_of: string)
  | PTime (str_of: string)
  | PDuration (str_of: string)
  | PInstance (facets: "pyval list")

text \<open>
  The selectors read an object the way the source does (\<^verbatim>\<open>value.items()\<close>,
  \<^verbatim>\<open>value.nodes\<close>, \<^verbatim>\<open>value.iso_format()\<close>, \<^verbatim>\<open>str(value)\<close>); each is used only
  behind the \<^verbatim>\<open>isinstance\<close> test that guards it in the source.
  \<open>PFloat\<close> holds a float by its \<^verbatim>\<open>repr\<close>; \<open>POther\<close> stands for an object of any
  class not listed (bytes, a set, a spatial point), named by its \<^verbatim>\<open>repr\<close>.

  The classes, and \<^verbatim>\<open>isinstance\<close> with the subclass relations among them:
  \<^verbatim>\<open>bool\<close> is a subclass of \<^verbatim>\<open>int\<close>; \<^verbatim>\<open>Record\<close> and \<^verbatim>\<open>Duration\<close> are
  subclasses of \<^verbatim>\<open>tuple\<close>.
\<close>

datatype pyclass =
    C_NoneType | C_bool | C_int | C_float | C_str | C_other | C_tuple | C_list | C_dict
  | C_Record | C_Node | C_Relationship | C_Path
  | C_DateTime | C_Date | C_Time | C_Duration

fun classes_of :: "pyval \<Rightarrow> pyclass list" where
  "classes_of PNone = [C_NoneType]"
| "classes_of (PBool _) = [C_bool, C_int]"
| "classes_of (PInt _) = [C_int]"
| "classes_of (PFloat _) = [C_float]"
| "classes_of (PStr _) = [C_str]"
| "classes_of (POther _) = [C_other]"
| "classes_of (PTuple _) = [C_tuple]"
| "classes_of (PList _) = [C_list]"
| "classes_of (PDict _) = [C_dict]"
| "classes_of (PRecord _) = [C_Record, C_tuple]"
| "classes_of (PNode _) = [C_Node]"
| "classes_of (PRelationship _) = [C_Relationship]"
| "classes_of (PPath _ _) = [C_Path]"
| "classes_of (PDateTime _) = [C_DateTime]"
| "classes_of (PDate _) = [C_Date]"
| "classes_of (PTime _) = [C_Time]"
| "classes_of (PDuration _) = [C_Duration, C_tuple]"
| "classes_of (PInstance fs) = concat (map classes_of fs)"

text \<open>
  \<^verbatim>\<open>isinstance(value, cs)\<close> for a class or a tuple of classes \<open>cs\<close>, and the
  object read as an instance of one of these classes.
\<close>

definition isinstance :: "pyval \<Rightarrow> pyclass list \<Rightarrow> bool" where
  "isinstance v cs = list_ex (\<lambda>c. c \<in> set (classes_of v)) cs"

function (sequential) as_class :: "pyclass list \<Rightarrow> pyval \<Rightarrow> pyval" where
  "as_class cs (PInstance fs) =
     (case find (\<lambda>f. isinstance f cs) fs of
        None \<Rightarrow> PInstance fs
      | Some f \<Rightarrow> as_class cs f)"
| "as_class cs v = v"
  by pat_completeness auto

lemma size_member_less: "x \<in> set xs \<Longrightarrow> f x < size_list f xs"
  by (induction xs) auto

lemma find_Some_member: "find P xs = Some x \<Longrightarrow> x \<in> set xs \<and> P x"
  by (induction xs) (auto split: if_splits)

termination as_class
proof (relation "measure (\<lambda>(c, v). size v)", goal_cases)
  case 1
  show ?case by simp
next
  case (2 cs fs f)
  then have "f \<in> set fs" using find_Some_member [of "\<lambda>f. isinstance f cs" fs f] by simp
  then show ?case using size_member_less [of f fs size] by simp
qed

text \<open>
  An exception: the module uses of it whether it is an instance of \<^verbatim>\<open>Exception\<close>
  (what \<^verbatim>\<open>except Exception\<close> catches; \<^verbatim>\<open>KeyboardInterrupt\<close> and
  \<^verbatim>\<open>SystemExit\<close> are not) and \<^verbatim>\<open>str(e)\<close>. Reading \<^verbatim>\<open>.id\<close> of \<^verbatim>\<open>None\<close>
  raises the \<^verbatim>\<open>AttributeError\<close> \<open>none_has_no_id\<close>.
\<close>

datatype exc = PyException (exc_str: string) | PyBaseException (exc_str: string)

definition none_has_no_id :: exc where
  "none_has_no_id =
     PyException (CHR 0x27 # ''NoneType'' @ CHR 0x27 # '' object has no attribute '' @
                  CHR 0x27 # ''id'' @ [CHR 0x27])"

text \<open>
  Building a dictionary from pairs, as a dict display or a dict comprehension does: the
  pairs are inserted from left to right, and a key that is already present keeps its
  place and takes the new value. A comprehension evaluates its elements from left to
  right and stops at the first that raises.
\<close>

definition dict_of_items :: "'v items \<Rightarrow> 'v items" where
  "dict_of_items kvs = foldl (\<lambda>d (k, v). AList.update k v d) [] kvs"

fun collect :: "(exc + 'a) list \<Rightarrow> exc + 'a list" where
  "collect [] = Inr []"
| "collect (Inl e # rs) = Inl e"
| "collect (Inr y # rs) = (case collect rs of Inl e \<Rightarrow> Inl e | Inr ys \<Rightarrow> Inr (y # ys))"

definition keyed :: "string \<Rightarrow> exc + pyval \<Rightarrow> exc + string \<times> pyval" where
  "keyed k r = (case r of Inl e \<Rightarrow> Inl e | Inr y \<Rightarrow> Inr (k, y))"

definition dict_comprehension :: "(exc + string \<times> pyval) list \<Rightarrow> exc + pyval" where
  "dict_comprehension rs =
     (case collect rs of Inl e \<Rightarrow> Inl e | Inr kvs \<Rightarrow> Inr (PDict (dict_of_items kvs)))"

definition list_comprehension :: "(exc + pyval) list \<Rightarrow> exc + pyval list" where
  "list_comprehension rs = collect rs"

section \<open>The value normalizer \<^verbatim>\<open>to_python\<close>\<close>

text \<open>
  The dict displays of the node, relationship and path branches, with the values of
  their entries evaluated in the order of the display. The keys are distinct literals,
  so each display is the association list it builds. In the display of a relationship
  \<^verbatim>\<open>value.start_node.id\<close> and \<^verbatim>\<open>value.end_node.id\<close> are read before the properties
  are converted, and raise when the node is \<^verbatim>\<open>None\<close>.
\<close>

definition node_display :: "pyval node \<Rightarrow> exc + pyval \<Rightarrow> exc + pyval" where
  "node_display n properties =
     (case properties of
        Inl e \<Rightarrow> Inl e
      | Inr props \<Rightarrow>
          Inr (PDict
            [(''id'', PInt (node_id n)),
             (''labels'', PList (map PStr (labels n))),
             (''properties'', props)]))"

definition relationship_display :: "pyval relationship \<Rightarrow> exc + pyval \<Rightarrow> exc + pyval" where
  "relationship_display r properties =
     (case start_node r of
        None \<Rightarrow> Inl none_has_no_id
      | Some s \<Rightarrow>
          (case end_node r of
             None \<Rightarrow> Inl none_has_no_id
           | Some e \<Rightarrow>
               (case properties of
                  Inl x \<Rightarrow> Inl x
                | Inr props \<Rightarrow>
                    Inr (PDict
                      [(''id'', PInt (rel_id r)),
                       (''type'', PStr (rel_type r)),
                       (''start_node'', PInt (node_id s)),
                       (''end_node'', PInt (node_id e)),
                       (''properties'', props)]))))"

definition path_display :: "exc + pyval list \<Rightarrow> exc + pyval list \<Rightarrow> exc + pyval" where
  "path_display ns rs =
     (case ns of
        Inl e \<Rightarrow> Inl e
      | Inr ns' \<Rightarrow>
          (case rs of
             Inl e \<Rightarrow> Inl e
           | Inr rs' \<Rightarrow>
               Inr (PDict [(''nodes'', PList ns'), (''relationships'', PList rs')])))"

definition list_result :: "exc + pyval list \<Rightarrow> exc + pyval" where
  "list_result r = (case r of Inl e \<Rightarrow> Inl e | Inr ys \<Rightarrow> Inr (PList ys))"

text \<open>
  \<^verbatim>\<open>to_python\<close> is the \<^verbatim>\<open>if\<close>/\<^verbatim>\<open>elif\<close> chain of the source, in its order:
  \<^verbatim>\<open>Record\<close>, \<^verbatim>\<open>dict\<close>, \<^verbatim>\<open>list\<close>, \<^verbatim>\<open>Node\<close>, \<^verbatim>\<open>Relationship\<close>, \<^verbatim>\<open>Path\<close>,
  \<^verbatim>\<open>DateTime\<close>, then \<^verbatim>\<open>Date\<close>/\<^verbatim>\<open>Time\<close>/\<^verbatim>\<open>Duration\<close>, then everything else.
  It returns (\<open>Inr\<close>) or raises (\<open>Inl\<close>).
\<close>

function to_python :: "pyval \<Rightarrow> exc + pyval" where
  "to_python v =
     (if isinstance v [C_Record] then
        dict_comprehension
          (map (\<lambda>(k, x). keyed k (to_python x)) (items (as_class [C_Record] v)))
      else if isinstance v [C_dict] then
        dict_comprehension
          (map (\<lambda>(k, x). keyed k (to_python x)) (items (as_class [C_dict] v)))
      else if isinstance v [C_list] then
        list_result (list_comprehension (map to_python (elements (as_class [C_list] v))))
      else if isinstance v [C_Node] then
        node_display (the_node (as_class [C_Node] v))
          (to_python (PDict (node_properties (the_node (as_class [C_Node] v)))))
      else if isinstance v [C_Relationship] then
        relationship_display (the_relationship (as_class [C_Relationship] v))
          (to_python (PDict (rel_properties (the_relationship (as_class [C_Relationship] v)))))
      else if isinstance v [C_Path] then
        path_display
          (list_comprehension (map (\<lambda>n. to_python (PNode n)) (nodes (as_class [C_Path] v))))
          (list_comprehension
             (map (\<lambda>r. to_python (PRelationship r)) (relationships (as_class [C_Path] v))))
      else if isinstance v [C_DateTime] then
        Inr (PStr (iso_format (as_class [C_DateTime] v)))
      else if isinstance v [C_Date, C_Time, C_Duration] then
        Inr (PStr (str_of (as_class [C_Date, C_Time, C_Duration] v)))
      else Inr v)"
  by pat_completeness auto

lemma isinstance_PInstance:
  "isinstance (PInstance fs) cs = (\<exists>f \<in> set fs. isinstance f cs)"
  by (auto simp: isinstance_def list_ex_iff)

lemma find_None_iff_all: "find P xs = None \<longleftrightarrow> (\<forall>x \<in> set xs. \<not> P x)"
  by (induction xs) auto

lemma as_class_size: "size (as_class cs v) \<le> size v"
proof (induction cs v rule: as_class.induct)
  case (1 cs fs)
  show ?case
  proof (cases "find (\<lambda>f. isinstance f cs) fs")
    case None
    then show ?thesis by simp
  next
    case (Some f)
    then have "f \<in> set fs" using find_Some_member [of "\<lambda>f. isinstance f cs" fs f] by simp
    then have "size f < size (PInstance fs)" using size_member_less [of f fs size] by simp
    with Some "1.IH" [of f] show ?thesis by simp
  qed
qed simp_all

lemma as_class_plain:
  "isinstance v cs \<Longrightarrow> isinstance (as_class cs v) cs \<and> (\<forall>fs. as_class cs v \<noteq> PInstance fs)"
proof (induction cs v rule: as_class.induct)
  case (1 cs fs)
  show ?case
  proof (cases "find (\<lambda>f. isinstance f cs) fs")
    case None
    with "1.prems" show ?thesis by (simp add: find_None_iff_all isinstance_PInstance)
  next
    case (Some f)
    then have "isinstance f cs" using find_Some_member [of "\<lambda>f. isinstance f cs" fs f] by simp
    with Some "1.IH" [of f] show ?thesis by simp
  qed
qed simp_all

lemma as_Record: "isinstance v [C_Record] \<Longrightarrow> \<exists>its. as_class [C_Record] v = PRecord its"
  using as_class_plain [of v "[C_Record]"]
  by (cases "as_class [C_Record] v") (auto simp: isinstance_def)

lemma as_dict: "isinstance v [C_dict] \<Longrightarrow> \<exists>its. as_class [C_dict] v = PDict its"
  using as_class_plain [of v "[C_dict]"]
  by (cases "as_class [C_dict] v") (auto simp: isinstance_def)

lemma as_list: "isinstance v [C_list] \<Longrightarrow> \<exists>vs. as_class [C_list] v = PList vs"
  using as_class_plain [of v "[C_list]"]
  by (cases "as_class [C_list] v") (auto simp: isinstance_def)

lemma as_Node: "isinstance v [C_Node] \<Longrightarrow> \<exists>n. as_class [C_Node] v = PNode n"
  using as_class_plain [of v "[C_Node]"]
  by (cases "as_class [C_Node] v") (auto simp: isinstance_def)

lemma as_Relationship:
  "isinstance v [C_Relationship] \<Longrightarrow> \<exists>r. as_class [C_Relationship] v = PRelationship r"
  using as_class_plain [of v "[C_Relationship]"]
  by (cases "as_class [C_Relationship] v") (auto simp: isinstance_def)

lemma as_Path: "isinstance v [C_Path] \<Longrightarrow> \<exists>ns rs. as_class [C_Path] v = PPath ns rs"
  using as_class_plain [of v "[C_Path]"]
  by (cases "as_class [C_Path] v") (auto simp: isinstance_def)

lemma size_item_less: "(k, v) \<in> set its \<Longrightarrow> size v < Suc (size_list (size_prod (\<lambda>_. 0) size) its)"
  by (induction its) auto

lemma to_python_dom_all: "All to_python_dom"
proof (relation "measure size", goal_cases)
  case 1
  show ?case by simp
next
  case (2 v kv k x)
  then obtain its where its: "as_class [C_Record] v = PRecord its" using as_Record by blast
  with 2 have "size x < size (as_class [C_Record] v)" using size_item_less [of k x its] by simp
  with as_class_size [of "[C_Record]" v] show ?case by simp
next
  case (3 v kv k x)
  then obtain its where its: "as_class [C_dict] v = PDict its" using as_dict by blast
  with 3 have "size x < size (as_class [C_dict] v)" using size_item_less [of k x its] by simp
  with as_class_size [of "[C_dict]" v] show ?case by simp
next
  case (4 v x)
  then obtain vs where vs: "as_class [C_list] v = PList vs" using as_list by blast
  with 4 have "size x < size (as_class [C_list] v)" using size_member_less [of x vs size] by simp
  with as_class_size [of "[C_list]" v] show ?case by simp
next
  case (5 v)
  then obtain n where n: "as_class [C_Node] v = PNode n" using as_Node by blast
  have "size (PDict (node_properties n)) < size (PNode n)" by (cases n) simp
  with n as_class_size [of "[C_Node]" v] show ?case by simp
next
  case (6 v)
  then obtain r where r: "as_class [C_Relationship] v = PRelationship r"
    using as_Relationship by blast
  have "size (PDict (rel_properties r)) < size (PRelationship r)" by (cases r) simp
  with r as_class_size [of "[C_Relationship]" v] show ?case by simp
next
  case (7 v n)
  then obtain ns rs where p: "as_class [C_Path] v = PPath ns rs" using as_Path by blast
  with 7 have "size (PNode n) < size (as_class [C_Path] v)"
    using size_member_less [of n ns "size_node size"] by simp
  with as_class_size [of "[C_Path]" v] show ?case by simp
next
  case (8 v r)
  then obtain ns rs where p: "as_class [C_Path] v = PPath ns rs" using as_Path by blast
  with 8 have "size (PRelationship r) < size (as_class [C_Path] v)"
    using size_member_less [of r rs "size_relationship size"] by simp
  with as_class_size [of "[C_Path]" v] show ?case by simp
qed

termination to_python
  by (rule to_python_dom_all)

declare to_python.simps [simp del]

text \<open>
  The classes \<^verbatim>\<open>to_python\<close> tests for, and the values that are already plain:
  \<^verbatim>\<open>None\<close>, booleans, numbers and strings, lists of plain values, and dictionaries
  (distinct keys) of plain values.
\<close>

definition special_cased :: "pyval \<Rightarrow> bool" where
  "special_cased v =
     isinstance v [C_Record, C_dict, C_list, C_Node, C_Relationship, C_Path,
                   C_DateTime, C_Date, C_Time, C_Duration]"

fun normalized :: "pyval \<Rightarrow> bool" where
  "normalized PNone = True"
| "normalized (PBool _) = True"
| "normalized (PInt _) = True"
| "normalized (PFloat _) = True"
| "normalized (PStr _) = True"
| "normalized (PList vs) = list_all normalized vs"
| "normalized (PDict its) = (distinct (map fst its) \<and> list_all normalized (map snd its))"
| "normalized _ = False"

text \<open>
  A value in which every relationship that \<^verbatim>\<open>to_python\<close> can reach has its start
  and end node.
\<close>

function (sequential) all_bound :: "pyval \<Rightarrow> bool" where
  "all_bound (PRecord its) = list_all all_bound (map snd its)"
| "all_bound (PDict its) = list_all all_bound (map snd its)"
| "all_bound (PList vs) = list_all all_bound vs"
| "all_bound (PNode (Node i ls ps)) = list_all all_bound (map snd ps)"
| "all_bound (PRelationship (Relationship i ty s e ps)) =
     (s \<noteq> None \<and> e \<noteq> None \<and> list_all all_bound (map snd ps))"
| "all_bound (PPath ns rs) =
     (list_all (\<lambda>n. all_bound (PNode n)) ns \<and> list_all (\<lambda>r. all_bound (PRelationship r)) rs)"
| "all_bound (PInstance fs) = list_all all_bound fs"
| "all_bound v = True"
  by pat_completeness auto

lemma size_value_less:
  "x \<in> set (map snd its) \<Longrightarrow> size x < Suc (size_list (size_prod (\<lambda>_. 0) size) its)"
  using size_item_less by fastforce

termination all_bound
proof (relation "measure size", goal_cases)
  case 1
  show ?case by simp
next
  case (2 its x)
  then show ?case using size_value_less [of x its] by simp
next
  case (3 its x)
  then show ?case using size_value_less [of x its] by simp
next
  case (4 vs x)
  then show ?case using size_member_less [of x vs size] by simp
next
  case (5 i ls ps x)
  then show ?case using size_value_less [of x ps] by simp
next
  case (6 i ty s e ps x)
  then show ?case using size_value_less [of x ps] by simp
next
  case (7 ns rs n)
  then show ?case using size_member_less [of n ns "size_node size"] by simp
next
  case (8 ns rs r)
  then show ?case using size_member_less [of r rs "size_relationship size"] by simp
next
  case (9 fs f)
  then show ?case using size_member_less [of f fs size] by simp
qed

section \<open>The envelope helpers\<close>

text \<open>
  \<^verbatim>\<open>tool_success\<close> returns the display \<^verbatim>\<open>{'status': 'success', key: result}\<close>,
  whose second key is the caller's; \<^verbatim>\<open>tool_error\<close> returns a display of two
  literal keys.
\<close>

definition tool_success :: "string \<Rightarrow> pyval \<Rightarrow> pyval items" where
  "tool_success key result = dict_of_items [(''status'', PStr ''success''), (key, result)]"

definition tool_error :: "string \<Rightarrow> pyval items" where
  "tool_error message = [(''status'', PStr ''error''), (''error_message'', PStr message)]"

definition has_key :: "pyval items \<Rightarrow> string \<Rightarrow> bool" where
  "has_key d k = (map_of d k \<noteq> None)"

definition envelope_invariant :: "string \<Rightarrow> pyval items \<Rightarrow> bool" where
  "envelope_invariant key env =
     ((map_of env ''status'' = Some (PStr ''success'') \<and> has_key env key \<and>
         map_of env ''error_message'' = None) \<or>
      (map_of env ''status'' = Some (PStr ''error'') \<and> has_key env ''error_message'' \<and>
         map_of env key = None))"

section \<open>The driver as the gateway sees it\<close>

text \<open>
  The driver is not part of the module; its objects are modelled by what the methods the
  module calls on them do. A call either returns or raises.

  A record object has its \<^verbatim>\<open>items()\<close> and the dictionary its \<^verbatim>\<open>data()\<close> method
  exports; a result object has the outcome of \<^verbatim>\<open>to_eager_result()\<close>, the records in
  result order; a session has \<^verbatim>\<open>run\<close>, called with the query, the parameters and
  the keyword arguments of the call, and \<^verbatim>\<open>close\<close>; the driver has \<^verbatim>\<open>session()\<close>.
\<close>

record neo4j_record =
  record_items :: "pyval items"
  record_data :: pyval

record neo4j_result =
  to_eager_result :: "exc + neo4j_record list"

record neo4j_session =
  session_run :: "string \<Rightarrow> pyval items \<Rightarrow> pyval items \<Rightarrow> exc + neo4j_result"
  session_close :: "exc option"

record neo4j_driver =
  driver_session :: "exc + neo4j_session"

text \<open>
  \<^verbatim>\<open>Session.run(query, parameters, **kwargs)\<close> of the driver takes no keyword for
  the database: it adds every keyword argument to the parameters of the query, a keyword
  taking precedence over a parameter of the same name.
\<close>

definition query_parameters :: "pyval items \<Rightarrow> pyval items \<Rightarrow> pyval items" where
  "query_parameters parameters kwargs = dict_of_items (parameters @ kwargs)"

text \<open>
  The calls that act on the driver are logged, so that what a call of the gateway did
  can be read off: the log is threaded through every operation.
\<close>

datatype event =
    Driver_Requested "string option" string "string option"
  | Session_Opened
  | Query_Run string "pyval items" "pyval items"
  | Session_Closed

type_synonym 'a effect = "event list \<Rightarrow> 'a \<times> event list"

definition call_session :: "neo4j_driver \<Rightarrow> (exc + neo4j_session) effect" where
  "call_session d t =
     (case driver_session d of
        Inl e \<Rightarrow> (Inl e, t)
      | Inr s \<Rightarrow> (Inr s, t @ [Session_Opened]))"

definition call_run ::
  "neo4j_session \<Rightarrow> string \<Rightarrow> pyval items \<Rightarrow> pyval items \<Rightarrow> (exc + neo4j_result) effect" where
  "call_run s query parameters kwargs t =
     (session_run s query parameters kwargs, t @ [Query_Run query parameters kwargs])"

definition call_close :: "neo4j_session \<Rightarrow> (exc option) effect" where
  "call_close s t = (session_close s, t @ [Session_Closed])"

text \<open>
  Python's \<^verbatim>\<open>try\<close> statement. \<^verbatim>\<open>except Exception as e\<close> runs the handler when the
  body raised an instance of \<^verbatim>\<open>Exception\<close> and lets any other exception pass. The
  \<^verbatim>\<open>finally\<close> block runs whatever the outcome; when it raises, its exception
  replaces the outcome, and otherwise the outcome stands.
\<close>

definition try_except_Exception ::
  "(exc + 'a) effect \<Rightarrow> (exc \<Rightarrow> (exc + 'a) effect) \<Rightarrow> (exc + 'a) effect" where
  "try_except_Exception body handler t =
     (case body t of
        (Inl (PyException m), t') \<Rightarrow> handler (PyException m) t'
      | (Inl (PyBaseException m), t') \<Rightarrow> (Inl (PyBaseException m), t')
      | (Inr r, t') \<Rightarrow> (Inr r, t'))"

definition try_finally :: "(exc + 'a) effect \<Rightarrow> (exc option) effect \<Rightarrow> (exc + 'a) effect" where
  "try_finally body final t =
     (case body t of
        (r, t') \<Rightarrow>
          (case final t' of
             (Some e, t'') \<Rightarrow> (Inl e, t'')
           | (None, t'') \<Rightarrow> (r, t'')))"

section \<open>The query gateway \<^verbatim>\<open>Neo4jForADK\<close>\<close>

definition result_to_adk :: "neo4j_result \<Rightarrow> exc + pyval items" where
  "result_to_adk result =
     (case to_eager_result result of
        Inl e \<Rightarrow> Inl e
      | Inr eager_records \<Rightarrow>
          (case list_comprehension
                  (map (\<lambda>record. to_python (record_data record)) eager_records) of
             Inl e \<Rightarrow> Inl e
           | Inr records \<Rightarrow> Inr (tool_success ''query_result'' (PList records))))"

record neo4j_for_adk =
  database_name :: string
  driver :: neo4j_driver

text \<open>
  \<^verbatim>\<open>parameters or {}\<close>, for the argument the signature allows: \<^verbatim>\<open>None\<close> (also the
  default when the argument is omitted) or a dictionary, which is falsy when empty.
  The call of \<^verbatim>\<open>session.run\<close> passes the query and these parameters by position and
  the database name as the keyword \<^verbatim>\<open>database_\<close>.
\<close>

definition or_empty :: "pyval items option \<Rightarrow> pyval items" where
  "or_empty parameters =
     (case parameters of None \<Rightarrow> [] | Some d \<Rightarrow> if d = [] then [] else d)"

definition send_query ::
  "neo4j_for_adk \<Rightarrow> string \<Rightarrow> pyval items option \<Rightarrow> (exc + pyval items) effect" where
  "send_query self cypher_query parameters t =
     (case call_session (driver self) t of
        (Inl e, t1) \<Rightarrow> (Inl e, t1)
      | (Inr session, t1) \<Rightarrow>
          try_finally
            (try_except_Exception
               (\<lambda>t2. case call_run session cypher_query (or_empty parameters)
                             [(''database_'', PStr (database_name self))] t2 of
                        (Inl e, t3) \<Rightarrow> (Inl e, t3)
                      | (Inr result, t3) \<Rightarrow> (result_to_adk result, t3))
               (\<lambda>e t2. (Inr (tool_error (exc_str e)), t2)))
            (call_close session)
            t1)"

definition send_query_default :: "neo4j_for_adk \<Rightarrow> string \<Rightarrow> (exc + pyval items) effect" where
  "send_query_default self cypher_query = send_query self cypher_query None"

text \<open>
  Construction. The process environment is a partial map; \<^verbatim>\<open>os.getenv\<close> yields
  \<^verbatim>\<open>None\<close> for a variable that is not set. \<^verbatim>\<open>a or b\<close> on optional strings takes
  \<open>a\<close> unless it is \<^verbatim>\<open>None\<close> or empty. \<^verbatim>\<open>GraphDatabase.driver\<close> belongs to the
  driver and is an argument of the model; every call of it is logged.
\<close>

type_synonym environ = "string \<Rightarrow> string option"

definition getenv :: "environ \<Rightarrow> string \<Rightarrow> string option" where
  "getenv env name = env name"

definition or_str :: "string option \<Rightarrow> string option \<Rightarrow> string option" where
  "or_str a b = (case a of None \<Rightarrow> b | Some s \<Rightarrow> if s = [] then b else Some s)"

definition or_default :: "string option \<Rightarrow> string \<Rightarrow> string" where
  "or_default a d = (case a of None \<Rightarrow> d | Some s \<Rightarrow> if s = [] then d else s)"

definition neo4j_uri :: "environ \<Rightarrow> string option" where
  "neo4j_uri env = getenv env ''NEO4J_URI''"

definition neo4j_username :: "environ \<Rightarrow> string" where
  "neo4j_username env = or_default (getenv env ''NEO4J_USERNAME'') ''neo4j''"

definition neo4j_password :: "environ \<Rightarrow> string option" where
  "neo4j_password env = getenv env ''NEO4J_PASSWORD''"

definition neo4j_database :: "environ \<Rightarrow> string" where
  "neo4j_database env =
     or_default (or_str (getenv env ''NEO4J_DATABASE'') (getenv env ''NEO4J_USERNAME'')) ''neo4j''"

definition call_graph_database_driver ::
  "(string option \<Rightarrow> string \<times> string option \<Rightarrow> exc + neo4j_driver) \<Rightarrow>
   string option \<Rightarrow> string \<times> string option \<Rightarrow> (exc + neo4j_driver) effect" where
  "call_graph_database_driver graph_database_driver uri auth t =
     (graph_database_driver uri auth, t @ [Driver_Requested uri (fst auth) (snd auth)])"

definition neo4j_for_adk_init ::
  "environ \<Rightarrow> (string option \<Rightarrow> string \<times> string option \<Rightarrow> exc + neo4j_driver) \<Rightarrow>
   (exc + neo4j_for_adk) effect" where
  "neo4j_for_adk_init env graph_database_driver t =
     (case call_graph_database_driver graph_database_driver (neo4j_uri env)
             (neo4j_username env, neo4j_password env) t of
        (Inl e, t1) \<Rightarrow> (Inl e, t1)
      | (Inr d, t1) \<Rightarrow> (Inr \<lparr>database_name = neo4j_database env, driver = d\<rparr>, t1))"

section \<open>Concrete environments and drivers\<close>

text \<open>
  Concrete drivers at which the theorems below are evaluated. A session that answers
  \<^verbatim>\<open>RETURN 1 AS x\<close>; a session whose query fails; a driver that has been closed,
  whose \<^verbatim>\<open>session()\<close> raises; and a session that returns one record holding a node.
  For that record \<^verbatim>\<open>data()\<close> is what the driver documents: a node is exported as
  the dictionary of its properties, without its id and labels.
\<close>

definition answering_session :: neo4j_session where
  "answering_session =
     \<lparr>session_run = (\<lambda>query parameters kwargs.
        Inr \<lparr>to_eager_result =
          Inr [\<lparr>record_items = [(''x'', PInt 1)], record_data = PDict [(''x'', PInt 1)]\<rparr>]\<rparr>),
      session_close = None\<rparr>"

definition failing_session :: neo4j_session where
  "failing_session =
     \<lparr>session_run = (\<lambda>query parameters kwargs. Inl (PyException ''Invalid input'')),
      session_close = None\<rparr>"

definition closed_driver :: neo4j_driver where
  "closed_driver = \<lparr>driver_session = Inl (PyException ''Driver closed'')\<rparr>"

definition ann :: "pyval node" where
  "ann = Node 5 [''Person''] [(''name'', PStr ''Ann'')]"

definition node_record :: neo4j_record where
  "node_record =
     \<lparr>record_items = [(''n'', PNode ann)],
      record_data = PDict [(''n'', PDict [(''name'', PStr ''Ann'')])]\<rparr>"

definition node_session :: neo4j_session where
  "node_session =
     \<lparr>session_run = (\<lambda>query parameters kwargs. Inr \<lparr>to_eager_result = Inr [node_record]\<rparr>),
      session_close = None\<rparr>"

text \<open>
  \<^verbatim>\<open>GraphDatabase.driver\<close> as the driver library implements it, as far as the
  construction of the gateway depends on it. The library parses the URI and raises a
  configuration error when its scheme is not one of those it supports; the scheme of a
  URI that is \<^verbatim>\<open>None\<close> is empty. Otherwise it returns the driver object without
  opening a connection and without looking at the credentials: the server sees them
  with the first query. The scheme is compared as it is written (the library puts it
  in lower case first), and the further checks of the URI (user information, port)
  are left out.
\<close>

definition supported_uri_schemes :: "string list" where
  "supported_uri_schemes =
     [''bolt'', ''bolt+ssc'', ''bolt+s'', ''neo4j'', ''neo4j+ssc'', ''neo4j+s'']"

definition uri_scheme :: "string \<Rightarrow> string" where
  "uri_scheme u = (if CHR '':'' \<in> set u then takeWhile (\<lambda>c. c \<noteq> CHR '':'') u else [])"

definition scheme_repr :: "string option \<Rightarrow> string" where
  "scheme_repr uri =
     (case uri of
        None \<Rightarrow> ''b'' @ [CHR 0x27, CHR 0x27]
      | Some u \<Rightarrow> CHR 0x27 # uri_scheme u @ [CHR 0x27])"

definition unsupported_scheme :: "string option \<Rightarrow> exc" where
  "unsupported_scheme uri =
     PyException
       (''URI scheme '' @ scheme_repr uri @ '' is not supported. Supported URI schemes are ['' @
        CHR 0x27 # ''bolt'' @ CHR 0x27 # '', '' @ CHR 0x27 # ''bolt+ssc'' @ CHR 0x27 # '', '' @
        CHR 0x27 # ''bolt+s'' @ CHR 0x27 # '', '' @ CHR 0x27 # ''neo4j'' @ CHR 0x27 # '', '' @
        CHR 0x27 # ''neo4j+ssc'' @ CHR 0x27 # '', '' @ CHR 0x27 # ''neo4j+s'' @ CHR 0x27 #
        '']. Examples: bolt://host[:port] or neo4j://host[:port][?routing_context]'')"

definition graph_database_driver_model ::
  "neo4j_driver \<Rightarrow> string option \<Rightarrow> string \<times> string option \<Rightarrow> exc + neo4j_driver" where
  "graph_database_driver_model built uri auth =
     (case uri of
        None \<Rightarrow> Inl (unsupported_scheme None)
      | Some u \<Rightarrow>
          if uri_scheme u \<in> set supported_uri_schemes then Inr built
          else Inl (unsupported_scheme (Some u)))"

definition unauthorized_driver :: neo4j_driver where
  "unauthorized_driver =
     \<lparr>driver_session = Inr
        \<lparr>session_run = (\<lambda>query parameters kwargs. Inl (PyException ''authentication failure'')),
         session_close = None\<rparr>\<rparr>"

section \<open>Class tests, comprehensions and dictionaries\<close>

text \<open>
  The class tests and \<^verbatim>\<open>to_python\<close> on the values that belong to one class, the
  comprehensions when no element raises, and what the construction of a dictionary
  from a sequence of items keeps: the first place of a key and its last value.
\<close>

lemma isinstance_plain:
  "isinstance PNone cs = (C_NoneType \<in> set cs)"
  "isinstance (PBool b) cs = (C_bool \<in> set cs \<or> C_int \<in> set cs)"
  "isinstance (PInt i) cs = (C_int \<in> set cs)"
  "isinstance (PFloat f) cs = (C_float \<in> set cs)"
  "isinstance (PStr s) cs = (C_str \<in> set cs)"
  "isinstance (POther s) cs = (C_other \<in> set cs)"
  "isinstance (PTuple vs) cs = (C_tuple \<in> set cs)"
  "isinstance (PList vs) cs = (C_list \<in> set cs)"
  "isinstance (PDict its) cs = (C_dict \<in> set cs)"
  "isinstance (PRecord its) cs = (C_Record \<in> set cs \<or> C_tuple \<in> set cs)"
  "isinstance (PNode n) cs = (C_Node \<in> set cs)"
  "isinstance (PRelationship r) cs = (C_Relationship \<in> set cs)"
  "isinstance (PPath ns rs) cs = (C_Path \<in> set cs)"
  "isinstance (PDateTime s) cs = (C_DateTime \<in> set cs)"
  "isinstance (PDate s) cs = (C_Date \<in> set cs)"
  "isinstance (PTime s) cs = (C_Time \<in> set cs)"
  "isinstance (PDuration s) cs = (C_Duration \<in> set cs \<or> C_tuple \<in> set cs)"
  by (auto simp: isinstance_def list_ex_iff)

lemma isinstance_Cons:
  "isinstance v (c # c' # cs) = (isinstance v [c] \<or> isinstance v (c' # cs))"
  by (simp add: isinstance_def)

lemma to_python_plain:
  "to_python (PRecord its) = dict_comprehension (map (\<lambda>(k, x). keyed k (to_python x)) its)"
  "to_python (PDict its) = dict_comprehension (map (\<lambda>(k, x). keyed k (to_python x)) its)"
  "to_python (PList vs) = list_result (list_comprehension (map to_python vs))"
  "to_python (PNode n) = node_display n (to_python (PDict (node_properties n)))"
  "to_python (PRelationship r) = relationship_display r (to_python (PDict (rel_properties r)))"
  "to_python (PPath ns rs) =
     path_display (list_comprehension (map (\<lambda>n. to_python (PNode n)) ns))
       (list_comprehension (map (\<lambda>r. to_python (PRelationship r)) rs))"
  "to_python (PDateTime s) = Inr (PStr s)"
  "to_python (PDate s) = Inr (PStr s)"
  "to_python (PTime s) = Inr (PStr s)"
  "to_python (PDuration s) = Inr (PStr s)"
  "to_python PNone = Inr PNone"
  "to_python (PBool b) = Inr (PBool b)"
  "to_python (PInt i) = Inr (PInt i)"
  "to_python (PFloat f) = Inr (PFloat f)"
  "to_python (PStr s) = Inr (PStr s)"
  "to_python (POther s) = Inr (POther s)"
  "to_python (PTuple vs) = Inr (PTuple vs)"
  by (subst to_python.simps, simp add: isinstance_plain)+

lemmas comprehension_defs = dict_comprehension_def list_comprehension_def

lemma collect_map_Inr: "collect (map Inr ys) = Inr ys"
  by (induction ys) simp_all

lemma collect_Inr_D: "collect rs = Inr ys \<Longrightarrow> rs = map Inr ys"
proof (induction rs arbitrary: ys)
  case Nil
  then show ?case by simp
next
  case (Cons r rs)
  show ?case
  proof (cases r)
    case (Inl e)
    with Cons.prems show ?thesis by simp
  next
    case (Inr y)
    show ?thesis
    proof (cases "collect rs")
      case (Inl e)
      with Cons.prems \<open>r = Inr y\<close> show ?thesis by simp
    next
      case (Inr ys')
      then have "rs = map Inr ys'" by (rule Cons.IH)
      moreover from Cons.prems \<open>r = Inr y\<close> Inr have "ys = y # ys'" by simp
      ultimately show ?thesis using \<open>r = Inr y\<close> by simp
    qed
  qed
qed

lemma collect_Inr_iff: "collect rs = Inr ys \<longleftrightarrow> rs = map Inr ys"
  using collect_Inr_D collect_map_Inr by blast

lemma keyed_all:
  "map (\<lambda>kx. f (snd kx)) its = map Inr ys \<Longrightarrow>
   map (\<lambda>(k, x). keyed k (f x)) its = map Inr (zip (map fst its) ys)"
proof (induction its arbitrary: ys)
  case Nil
  then show ?case by simp
next
  case (Cons kx its)
  then obtain y ys' where ys: "ys = y # ys'" by (cases ys) auto
  with Cons.prems have "f (snd kx) = Inr y" and "map (\<lambda>kx. f (snd kx)) its = map Inr ys'"
    by simp_all
  with Cons.IH [of ys'] ys show ?case by (cases kx) (simp add: keyed_def)
qed

lemma keyed_success:
  "map (\<lambda>(k, x). keyed k (f x)) its = map Inr kvs \<Longrightarrow>
   (\<forall>kx \<in> set its. keyed (fst kx) (f (snd kx)) = Inr (fst kx, projr (f (snd kx)))) \<and>
   kvs = map (\<lambda>(k, x). (k, projr (f x))) its"
proof (induction its arbitrary: kvs)
  case Nil
  then show ?case by simp
next
  case (Cons kx its)
  obtain k x where kx: "kx = (k, x)" by (cases kx)
  from Cons.prems obtain kv kvs' where kvs: "kvs = kv # kvs'" by (cases kvs) auto
  with Cons.prems kx have hd: "keyed k (f x) = Inr kv"
    and tl: "map (\<lambda>(k, x). keyed k (f x)) its = map Inr kvs'" by simp_all
  from hd have kv: "kv = (k, projr (f x))" and ok: "keyed k (f x) = Inr (k, projr (f x))"
    by (cases "f x"; simp add: keyed_def)+
  from Cons.IH [OF tl] kvs kv ok kx show ?case by simp
qed

lemma map_eq_length: "map f xs = map g ys \<Longrightarrow> length xs = length ys"
  by (metis length_map)

lemma map_Inr_member:
  "map f xs = map Inr ys \<Longrightarrow> z \<in> set ys \<Longrightarrow> \<exists>x \<in> set xs. f x = Inr z"
proof (induction xs arbitrary: ys)
  case Nil
  then show ?case by simp
next
  case (Cons x xs)
  then obtain y ys' where ys: "ys = y # ys'" by (cases ys) auto
  with Cons.prems have hd: "f x = Inr y" and tl: "map f xs = map Inr ys'" by simp_all
  show ?case
  proof (cases "z = y")
    case True
    with hd show ?thesis by simp
  next
    case False
    with Cons.prems ys have "z \<in> set ys'" by simp
    with Cons.IH [OF tl] show ?thesis by auto
  qed
qed

lemma update_fresh: "k \<notin> fst ` set d \<Longrightarrow> AList.update k v d = d @ [(k, v)]"
  by (induction d) auto

lemma foldl_update_distinct:
  "distinct (map fst (d @ kvs)) \<Longrightarrow> foldl (\<lambda>d (k, v). AList.update k v d) d kvs = d @ kvs"
proof (induction kvs arbitrary: d)
  case Nil
  then show ?case by simp
next
  case (Cons kv kvs)
  obtain k v where kv: "kv = (k, v)" by (cases kv)
  from Cons.prems kv have fresh: "k \<notin> fst ` set d" by auto
  from Cons.prems kv have "distinct (map fst ((d @ [(k, v)]) @ kvs))" by simp
  then have "foldl (\<lambda>d (k, v). AList.update k v d) (d @ [(k, v)]) kvs = (d @ [(k, v)]) @ kvs"
    by (rule Cons.IH)
  with fresh kv show ?case by (simp add: update_fresh)
qed

lemma dict_of_items_distinct: "distinct (map fst kvs) \<Longrightarrow> dict_of_items kvs = kvs"
  using foldl_update_distinct [of "[]" kvs] by (simp add: dict_of_items_def)

lemma update_map_values:
  "AList.update k (g v) (map (\<lambda>(k, x). (k, g x)) d) = map (\<lambda>(k, x). (k, g x)) (AList.update k v d)"
  by (induction d) auto

lemma foldl_update_map_values:
  "foldl (\<lambda>d (k, v). AList.update k v d) (map (\<lambda>(k, x). (k, g x)) d) (map (\<lambda>(k, x). (k, g x)) kvs)
   = map (\<lambda>(k, x). (k, g x)) (foldl (\<lambda>d (k, v). AList.update k v d) d kvs)"
proof (induction kvs arbitrary: d)
  case Nil
  then show ?case by simp
next
  case (Cons kv kvs)
  obtain k v where kv: "kv = (k, v)" by (cases kv)
  show ?case using Cons.IH [of "AList.update k v d"] by (simp add: kv update_map_values)
qed

lemma dict_of_items_map_values:
  "dict_of_items (map (\<lambda>(k, x). (k, g x)) kvs) = map (\<lambda>(k, x). (k, g x)) (dict_of_items kvs)"
  using foldl_update_map_values [of g "[]" kvs] by (simp add: dict_of_items_def)

lemma foldl_update_keys_distinct:
  "distinct (map fst d) \<Longrightarrow> distinct (map fst (foldl (\<lambda>d (k, v). AList.update k v d) d kvs))"
  by (induction kvs arbitrary: d) (auto simp: distinct_update)

lemma dict_of_items_keys_distinct: "distinct (map fst (dict_of_items kvs))"
  using foldl_update_keys_distinct [of "[]" kvs] by (simp add: dict_of_items_def)

lemma dict_of_items_idem: "dict_of_items (dict_of_items kvs) = dict_of_items kvs"
  by (rule dict_of_items_distinct) (rule dict_of_items_keys_distinct)

lemma set_update_subset: "set (AList.update k v d) \<subseteq> insert (k, v) (set d)"
  by (induction d) auto

lemma foldl_update_subset:
  "set (foldl (\<lambda>d (k, v). AList.update k v d) d kvs) \<subseteq> set d \<union> set kvs"
proof (induction kvs arbitrary: d)
  case Nil
  then show ?case by simp
next
  case (Cons kv kvs)
  obtain k v where kv: "kv = (k, v)" by (cases kv)
  show ?case using Cons.IH [of "AList.update k v d"] set_update_subset [of k v d]
    by (auto simp: kv)
qed

lemma dict_of_items_subset: "set (dict_of_items kvs) \<subseteq> set kvs"
  using foldl_update_subset [of "[]" kvs] by (simp add: dict_of_items_def)

lemma foldl_update_map_of:
  "map_of (foldl (\<lambda>d (k, v). AList.update k v d) d kvs) = map_of (rev kvs @ d)"
proof (induction kvs arbitrary: d)
  case Nil
  then show ?case by simp
next
  case (Cons kv kvs)
  obtain k v where kv: "kv = (k, v)" by (cases kv)
  have "map_of (foldl (\<lambda>d (k, v). AList.update k v d) (AList.update k v d) kvs)
      = map_of (rev kvs @ AList.update k v d)"
    by (rule Cons.IH)
  also have "\<dots> = map_of (rev kvs @ (k, v) # d)"
    by (simp add: update_conv')
  finally show ?case by (simp add: kv)
qed

lemma dict_of_items_map_of: "map_of (dict_of_items kvs) = map_of (rev kvs)"
  using foldl_update_map_of [of "[]" kvs] by (simp add: dict_of_items_def)

section \<open>Properties of the normalizer\<close>

text \<open>
  The branches of \<^verbatim>\<open>to_python\<close>, one by one. A branch is taken by a value that
  fails every earlier test and passes its own; the result is stated with the parts of
  the value that the class of the branch defines.
\<close>

lemma mapping_branch:
  assumes "map (\<lambda>kx. to_python (snd kx)) its = map Inr ys"
  shows "\<exists>d. dict_comprehension (map (\<lambda>(k, x). keyed k (to_python x)) its) = Inr (PDict d) \<and>
           distinct (map fst d) \<and> map_of d = map_of (rev (zip (map fst its) ys)) \<and>
           (distinct (map fst its) \<longrightarrow> d = zip (map fst its) ys)"
proof -
  let ?kvs = "zip (map fst its) ys"
  from assms have len: "length its = length ys" by (rule map_eq_length)
  then have keys: "map fst ?kvs = map fst its" by simp
  from assms have "map (\<lambda>(k, x). keyed k (to_python x)) its = map Inr ?kvs"
    by (rule keyed_all)
  then have "collect (map (\<lambda>(k, x). keyed k (to_python x)) its) = Inr ?kvs"
    by (simp only: collect_map_Inr)
  then have 1: "dict_comprehension (map (\<lambda>(k, x). keyed k (to_python x)) its)
      = Inr (PDict (dict_of_items ?kvs))"
    unfolding dict_comprehension_def by (simp only: sum.case)
  have 2: "distinct (map fst (dict_of_items ?kvs))"
    by (rule dict_of_items_keys_distinct)
  have 3: "map_of (dict_of_items ?kvs) = map_of (rev ?kvs)"
    by (rule dict_of_items_map_of)
  have 4: "distinct (map fst its) \<longrightarrow> dict_of_items ?kvs = ?kvs"
  proof
    assume "distinct (map fst its)"
    with keys have "distinct (map fst ?kvs)" by (simp only:)
    then show "dict_of_items ?kvs = ?kvs" by (rule dict_of_items_distinct)
  qed
  show ?thesis
  proof (intro exI conjI)
    show "dict_comprehension (map (\<lambda>(k, x). keyed k (to_python x)) its)
      = Inr (PDict (dict_of_items ?kvs))" by (rule 1)
    show "distinct (map fst (dict_of_items ?kvs))" by (rule 2)
    show "map_of (dict_of_items ?kvs) = map_of (rev ?kvs)" by (rule 3)
    show "distinct (map fst its) \<longrightarrow> dict_of_items ?kvs = ?kvs" by (rule 4)
  qed
qed

lemma to_python_passthrough: "\<not> special_cased v \<Longrightarrow> to_python v = Inr v"
  by (subst to_python.simps) (simp add: special_cased_def isinstance_Cons)

lemma branch_Record:
  assumes "isinstance v [C_Record]" and "as_class [C_Record] v = PRecord its"
    and "map (\<lambda>kx. to_python (snd kx)) its = map Inr ys"
  shows "\<exists>d. to_python v = Inr (PDict d) \<and> distinct (map fst d) \<and>
           map_of d = map_of (rev (zip (map fst its) ys)) \<and>
           (distinct (map fst its) \<longrightarrow> d = zip (map fst its) ys)"
proof -
  from assms have "to_python v = dict_comprehension (map (\<lambda>(k, x). keyed k (to_python x)) its)"
    by (subst to_python.simps) simp
  with mapping_branch [OF assms(3)] show ?thesis by simp
qed

lemma branch_dict:
  assumes "\<not> isinstance v [C_Record]" and "isinstance v [C_dict]"
    and "as_class [C_dict] v = PDict its"
    and "map (\<lambda>kx. to_python (snd kx)) its = map Inr ys"
  shows "\<exists>d. to_python v = Inr (PDict d) \<and> distinct (map fst d) \<and>
           map_of d = map_of (rev (zip (map fst its) ys)) \<and>
           (distinct (map fst its) \<longrightarrow> d = zip (map fst its) ys)"
proof -
  from assms have "to_python v = dict_comprehension (map (\<lambda>(k, x). keyed k (to_python x)) its)"
    by (subst to_python.simps) simp
  with mapping_branch [OF assms(4)] show ?thesis by simp
qed

lemma branch_list:
  assumes "\<not> isinstance v [C_Record, C_dict]" and "isinstance v [C_list]"
    and "as_class [C_list] v = PList xs" and "map to_python xs = map Inr ys"
  shows "to_python v = Inr (PList ys)"
  using assms
  by (subst to_python.simps)
    (simp add: isinstance_Cons list_result_def list_comprehension_def collect_map_Inr)

lemma branch_Node:
  assumes "\<not> isinstance v [C_Record, C_dict, C_list]" and "isinstance v [C_Node]"
    and "as_class [C_Node] v = PNode n" and "to_python (PDict (node_properties n)) = Inr props"
  shows "to_python v = Inr (PDict [(''id'', PInt (node_id n)),
      (''labels'', PList (map PStr (labels n))), (''properties'', props)])"
  using assms by (subst to_python.simps) (simp add: isinstance_Cons node_display_def)

lemma branch_Relationship:
  assumes "\<not> isinstance v [C_Record, C_dict, C_list, C_Node]"
    and "isinstance v [C_Relationship]"
    and "as_class [C_Relationship] v = PRelationship r"
    and "start_node r = Some a" and "end_node r = Some b"
    and "to_python (PDict (rel_properties r)) = Inr props"
  shows "to_python v = Inr (PDict [(''id'', PInt (rel_id r)), (''type'', PStr (rel_type r)),
      (''start_node'', PInt (node_id a)), (''end_node'', PInt (node_id b)),
      (''properties'', props)])"
  using assms by (subst to_python.simps) (simp add: isinstance_Cons relationship_display_def)

lemma branch_Path:
  assumes "\<not> isinstance v [C_Record, C_dict, C_list, C_Node, C_Relationship]"
    and "isinstance v [C_Path]" and "as_class [C_Path] v = PPath ns rs"
    and "map (\<lambda>n. to_python (PNode n)) ns = map Inr ns'"
    and "map (\<lambda>r. to_python (PRelationship r)) rs = map Inr rs'"
  shows "to_python v = Inr (PDict [(''nodes'', PList ns'), (''relationships'', PList rs')])"
  using assms
  by (subst to_python.simps)
    (simp add: isinstance_Cons path_display_def list_comprehension_def collect_map_Inr)

lemma branch_DateTime:
  assumes "\<not> isinstance v [C_Record, C_dict, C_list, C_Node, C_Relationship, C_Path]"
    and "isinstance v [C_DateTime]" and "as_class [C_DateTime] v = PDateTime s"
  shows "to_python v = Inr (PStr s)"
  using assms by (subst to_python.simps) (simp add: isinstance_Cons)

lemma branch_temporal:
  assumes "\<not> isinstance v [C_Record, C_dict, C_list, C_Node, C_Relationship, C_Path, C_DateTime]"
    and "isinstance v [C_Date, C_Time, C_Duration]"
    and "as_class [C_Date, C_Time, C_Duration] v \<in> {PDate s, PTime s, PDuration s}"
  shows "to_python v = Inr (PStr s)"
  using assms by (subst to_python.simps) (auto simp: isinstance_Cons)

lemma branch_else:
  assumes "\<not> isinstance v [C_Record, C_dict, C_list, C_Node, C_Relationship, C_Path,
      C_DateTime, C_Date, C_Time, C_Duration]"
  shows "to_python v = Inr v"
  using assms by (subst to_python.simps) (simp add: isinstance_Cons)

text \<open>
  Claim C5. \<^verbatim>\<open>to_python\<close> tests the classes in the order \<^verbatim>\<open>Record\<close>, \<^verbatim>\<open>dict\<close>,
  \<^verbatim>\<open>list\<close>, \<^verbatim>\<open>Node\<close>, \<^verbatim>\<open>Relationship\<close>, \<^verbatim>\<open>Path\<close>, \<^verbatim>\<open>DateTime\<close>, then
  \<^verbatim>\<open>Date\<close>, \<^verbatim>\<open>Time\<close> or \<^verbatim>\<open>Duration\<close>, and the first test that holds decides the
  result, also for a value that is an instance of several of these classes; a value
  that passes no test is returned unchanged. When the parts normalize without an
  exception, a record or dictionary becomes the dictionary of its keys with the
  normalized values (each key once, at its first place, with its last value), a list
  the list of its normalized elements, a node \<open>{id, labels, properties}\<close>, a
  relationship whose start and end node are bound
  \<open>{id, type, start_node, end_node, properties}\<close>, a path \<open>{nodes, relationships}\<close>,
  a date-time its ISO string and the other temporal values their string. The ordered
  sequence of the specification is the Python \<^verbatim>\<open>list\<close> only.
\<close>

theorem to_python_first_match:
  "(isinstance v [C_Record] \<and> as_class [C_Record] v = PRecord its \<and>
      map (\<lambda>kx. to_python (snd kx)) its = map Inr ys \<longrightarrow>
      (\<exists>d. to_python v = Inr (PDict d) \<and> distinct (map fst d) \<and>
           map_of d = map_of (rev (zip (map fst its) ys)) \<and>
           (distinct (map fst its) \<longrightarrow> d = zip (map fst its) ys))) \<and>
   (\<not> isinstance v [C_Record] \<and> isinstance v [C_dict] \<and> as_class [C_dict] v = PDict its \<and>
      map (\<lambda>kx. to_python (snd kx)) its = map Inr ys \<longrightarrow>
      (\<exists>d. to_python v = Inr (PDict d) \<and> distinct (map fst d) \<and>
           map_of d = map_of (rev (zip (map fst its) ys)) \<and>
           (distinct (map fst its) \<longrightarrow> d = zip (map fst its) ys))) \<and>
   (\<not> isinstance v [C_Record, C_dict] \<and> isinstance v [C_list] \<and>
      as_class [C_list] v = PList xs \<and> map to_python xs = map Inr ys \<longrightarrow>
      to_python v = Inr (PList ys)) \<and>
   (\<not> isinstance v [C_Record, C_dict, C_list] \<and> isinstance v [C_Node] \<and>
      as_class [C_Node] v = PNode n \<and> to_python (PDict (node_properties n)) = Inr props \<longrightarrow>
      to_python v = Inr (PDict [(''id'', PInt (node_id n)),
                               (''labels'', PList (map PStr (labels n))),
                               (''properties'', props)])) \<and>
   (\<not> isinstance v [C_Record, C_dict, C_list, C_Node] \<and> isinstance v [C_Relationship] \<and>
      as_class [C_Relationship] v = PRelationship r \<and>
      start_node r = Some a \<and> end_node r = Some b \<and>
      to_python (PDict (rel_properties r)) = Inr props \<longrightarrow>
      to_python v = Inr (PDict [(''id'', PInt (rel_id r)),
                               (''type'', PStr (rel_type r)),
                               (''start_node'', PInt (node_id a)),
                               (''end_node'', PInt (node_id b)),
                               (''properties'', props)])) \<and>
   (\<not> isinstance v [C_Record, C_dict, C_list, C_Node, C_Relationship] \<and>
      isinstance v [C_Path] \<and> as_class [C_Path] v = PPath ns rs \<and>
      map (\<lambda>n. to_python (PNode n)) ns = map Inr ns' \<and>
      map (\<lambda>r. to_python (PRelationship r)) rs = map Inr rs' \<longrightarrow>
      to_python v = Inr (PDict [(''nodes'', PList ns'), (''relationships'', PList rs')])) \<and>
   (\<not> isinstance v [C_Record, C_dict, C_list, C_Node, C_Relationship, C_Path] \<and>
      isinstance v [C_DateTime] \<and> as_class [C_DateTime] v = PDateTime s \<longrightarrow>
      to_python v = Inr (PStr s)) \<and>
   (\<not> isinstance v [C_Record, C_dict, C_list, C_Node, C_Relationship, C_Path, C_DateTime] \<and>
      isinstance v [C_Date, C_Time, C_Duration] \<and>
      as_class [C_Date, C_Time, C_Duration] v \<in> {PDate s, PTime s, PDuration s} \<longrightarrow>
      to_python v = Inr (PStr s)) \<and>
   (\<not> isinstance v [C_Record, C_dict, C_list, C_Node, C_Relationship, C_Path, C_DateTime,
                      C_Date, C_Time, C_Duration] \<longrightarrow>
      to_python v = Inr v)"
  by (intro conjI impI; (elim conjE)?;
      (rule branch_Record branch_dict branch_list branch_Node branch_Relationship
         branch_Path branch_DateTime branch_temporal branch_else; assumption))

text \<open>
  The order is observable: a dictionary subclass that is also a \<^verbatim>\<open>Node\<close> is
  normalized as a dictionary. A relationship with both nodes bound gets the five keys.
\<close>

theorem to_python_first_match_witness:
  "to_python (PInstance [PDict [(''since'', PDate ''2024-01-02'')], PNode ann])
     = Inr (PDict [(''since'', PStr ''2024-01-02'')]) \<and>
   to_python (PRelationship
       (Relationship 9 ''KNOWS'' (Some (Node 5 [] [])) (Some (Node 6 [] [])) []))
     = Inr (PDict [(''id'', PInt 9), (''type'', PStr ''KNOWS''), (''start_node'', PInt 5),
                   (''end_node'', PInt 6), (''properties'', PDict [])])"
proof -
  let ?v = "PInstance [PDict [(''since'', PDate ''2024-01-02'')], PNode ann]"
  let ?its = "[(''since'', PDate ''2024-01-02'')]"
  let ?r = "Relationship 9 ''KNOWS'' (Some (Node 5 [] [])) (Some (Node 6 [] [])) []
      :: pyval relationship"
  have h: "\<not> isinstance ?v [C_Record] \<and> isinstance ?v [C_dict] \<and>
      as_class [C_dict] ?v = PDict ?its \<and>
      map (\<lambda>kx. to_python (snd kx)) ?its = map Inr [PStr ''2024-01-02'']"
    by (simp add: isinstance_PInstance isinstance_plain to_python_plain)
  have n: "isinstance ?v [C_Node]"
    by (simp add: isinstance_PInstance isinstance_plain)
  note a = to_python_first_match [where v = ?v and its = ?its and ys = "[PStr ''2024-01-02'']"]
  have "\<exists>d. to_python ?v = Inr (PDict d) \<and> distinct (map fst d) \<and>
      map_of d = map_of (rev (zip (map fst ?its) [PStr ''2024-01-02''])) \<and>
      (distinct (map fst ?its) \<longrightarrow> d = zip (map fst ?its) [PStr ''2024-01-02''])"
    using h by (rule a [THEN conjunct2, THEN conjunct1, THEN mp])
  then obtain d where d: "to_python ?v = Inr (PDict d)"
    and z: "distinct (map fst ?its) \<longrightarrow> d = zip (map fst ?its) [PStr ''2024-01-02'']"
    by (elim exE conjE)
  from z have "d = [(''since'', PStr ''2024-01-02'')]" by simp
  with d have 1: "to_python ?v = Inr (PDict [(''since'', PStr ''2024-01-02'')])" by simp
  have k: "\<not> isinstance (PRelationship ?r) [C_Record, C_dict, C_list, C_Node] \<and>
      isinstance (PRelationship ?r) [C_Relationship] \<and>
      as_class [C_Relationship] (PRelationship ?r) = PRelationship ?r \<and>
      start_node ?r = Some (Node 5 [] []) \<and> end_node ?r = Some (Node 6 [] []) \<and>
      to_python (PDict (rel_properties ?r)) = Inr (PDict [])"
    by (simp add: isinstance_plain to_python_plain comprehension_defs dict_of_items_def)
  note b = to_python_first_match [where v = "PRelationship ?r" and r = ?r
      and a = "Node 5 [] []" and b = "Node 6 [] []" and props = "PDict []"]
  have "to_python (PRelationship ?r)
      = Inr (PDict [(''id'', PInt (rel_id ?r)), (''type'', PStr (rel_type ?r)),
                    (''start_node'', PInt (node_id (Node 5 [] [] :: pyval node))),
                    (''end_node'', PInt (node_id (Node 6 [] [] :: pyval node))),
                    (''properties'', PDict [])])"
    using k
    by (rule b [THEN conjunct2, THEN conjunct2, THEN conjunct2, THEN conjunct2, THEN conjunct1,
          THEN mp])
  then have 2: "to_python (PRelationship ?r)
      = Inr (PDict [(''id'', PInt 9), (''type'', PStr ''KNOWS''), (''start_node'', PInt 5),
                    (''end_node'', PInt 6), (''properties'', PDict [])])"
    by simp
  from 1 2 show ?thesis by (rule conjI)
qed

text \<open>
  A tuple is an ordered sequence but not a \<^verbatim>\<open>list\<close>: it is returned as it is, with
  the node it holds, where the list of the same node is normalized.
\<close>

theorem to_python_tuple_not_normalized:
  "to_python (PTuple [PNode ann]) = Inr (PTuple [PNode ann]) \<and>
   to_python (PList [PNode ann])
     = Inr (PList [PDict [(''id'', PInt 5), (''labels'', PList [PStr ''Person'']),
                          (''properties'', PDict [(''name'', PStr ''Ann'')])]])"
  by (simp add: to_python_plain comprehension_defs ann_def keyed_def node_display_def
      list_result_def dict_of_items_def)

text \<open>
  The examples of the specification, a record that names a column twice, and the
  value of two classes evaluated directly.
\<close>

lemma to_python_node_example:
  "to_python (PNode (Node 5 [''Person''] [(''name'', PStr ''Ann'')]))
   = Inr (PDict [(''id'', PInt 5), (''labels'', PList [PStr ''Person'']),
                 (''properties'', PDict [(''name'', PStr ''Ann'')])])"
  by (simp add: to_python_plain comprehension_defs keyed_def node_display_def dict_of_items_def)

lemma to_python_relationship_example:
  "to_python (PRelationship
      (Relationship 9 ''KNOWS'' (Some (Node 5 [] [])) (Some (Node 6 [] [])) []))
   = Inr (PDict [(''id'', PInt 9), (''type'', PStr ''KNOWS''), (''start_node'', PInt 5),
                 (''end_node'', PInt 6), (''properties'', PDict [])])"
  by (simp add: to_python_plain comprehension_defs relationship_display_def dict_of_items_def)

lemma to_python_record_duplicate_column:
  "to_python (PRecord [(''x'', PInt 1), (''y'', PDate ''2024-01-02''), (''x'', PInt 2)])
   = Inr (PDict [(''x'', PInt 2), (''y'', PStr ''2024-01-02'')])"
  by (simp add: to_python_plain comprehension_defs keyed_def dict_of_items_def)

lemma to_python_dict_node_instance:
  "to_python (PInstance [PDict [(''since'', PDate ''2024-01-02'')], PNode ann])
   = Inr (PDict [(''since'', PStr ''2024-01-02'')])"
  by (subst to_python.simps)
    (simp add: isinstance_PInstance isinstance_plain to_python_plain comprehension_defs keyed_def
      dict_of_items_def)

text \<open>
  Claim C8. The specification has \<^verbatim>\<open>to_python\<close> total: it never fails. The
  \<^verbatim>\<open>Relationship\<close> branch reads \<^verbatim>\<open>value.start_node.id\<close> and \<^verbatim>\<open>value.end_node.id\<close>
  without a test for \<^verbatim>\<open>None\<close>: on a relationship whose start node is not bound
  \<^verbatim>\<open>to_python\<close> raises \<^verbatim>\<open>AttributeError\<close> and returns nothing.
\<close>

theorem to_python_unbound_relationship_raises:
  "to_python (PRelationship (Relationship 9 ''KNOWS'' None None [])) = Inl none_has_no_id \<and>
   exc_str none_has_no_id
     = CHR 0x27 # ''NoneType'' @ CHR 0x27 # '' object has no attribute '' @ CHR 0x27 # ''id'' @ [CHR 0x27]"
  by (simp add: to_python_plain comprehension_defs relationship_display_def none_has_no_id_def)

text \<open>
  What holds of the code: a value that passes none of the tests is returned unchanged
  (\<open>to_python_passthrough\<close> above), the recursion of \<^verbatim>\<open>to_python\<close> ends on every
  value (\<open>to_python_dom_all\<close>), and \<^verbatim>\<open>to_python\<close> returns on every value all of
  whose relationships have both nodes bound. The depth of the interpreter's stack is
  not part of the model.
\<close>

lemma all_bound_as_class: "all_bound v \<Longrightarrow> all_bound (as_class cs v)"
proof (induction cs v rule: as_class.induct)
  case (1 cs fs)
  show ?case
  proof (cases "find (\<lambda>f. isinstance f cs) fs")
    case None
    with "1.prems" show ?thesis by simp
  next
    case (Some f)
    then have "f \<in> set fs" using find_Some_member [of "\<lambda>f. isinstance f cs" fs f] by simp
    with "1.prems" have "all_bound f" by (simp add: list_all_iff)
    with Some "1.IH" [of f] show ?thesis by simp
  qed
qed simp_all

lemma all_return:
  "(\<And>x. x \<in> set xs \<Longrightarrow> \<exists>y. f x = Inr y) \<Longrightarrow> \<exists>ys. map f xs = map Inr ys"
proof (induction xs)
  case Nil
  then show ?case by simp
next
  case (Cons x xs)
  then obtain y where y: "f x = Inr y" by auto
  from Cons obtain ys where "map f xs = map Inr ys" by auto
  with y have "map f (x # xs) = map Inr (y # ys)" by simp
  then show ?case by blast
qed

lemma to_python_returns_on_bound: "all_bound v \<Longrightarrow> \<exists>y. to_python v = Inr y"
proof (induction v rule: measure_induct_rule [where f = size])
  case (less v)
  note IH = less.IH
  have mapping: "\<exists>ys. map (\<lambda>kx. to_python (snd kx)) its = map Inr ys"
    if b: "list_all all_bound (map snd its)"
      and sz: "Suc (size_list (size_prod (\<lambda>_. 0) size) its) \<le> size v" for its
  proof (rule all_return)
    fix kx assume mem: "kx \<in> set its"
    then have "snd kx \<in> set (map snd its)" by simp
    then have "size (snd kx) < Suc (size_list (size_prod (\<lambda>_. 0) size) its)"
      by (rule size_value_less)
    with sz have "size (snd kx) < size v" by simp
    moreover from b mem have "all_bound (snd kx)" by (simp add: list_all_iff)
    ultimately show "\<exists>y. to_python (snd kx) = Inr y" by (rule IH)
  qed
  consider (is_record) "isinstance v [C_Record]"
    | (is_dict) "\<not> isinstance v [C_Record]" "isinstance v [C_dict]"
    | (is_list) "\<not> isinstance v [C_Record, C_dict]" "isinstance v [C_list]"
    | (is_node) "\<not> isinstance v [C_Record, C_dict, C_list]" "isinstance v [C_Node]"
    | (is_rel) "\<not> isinstance v [C_Record, C_dict, C_list, C_Node]" "isinstance v [C_Relationship]"
    | (is_path) "\<not> isinstance v [C_Record, C_dict, C_list, C_Node, C_Relationship]"
        "isinstance v [C_Path]"
    | (is_other) "\<not> isinstance v [C_Record, C_dict, C_list, C_Node, C_Relationship, C_Path]"
    by (auto simp: isinstance_Cons)
  then show ?case
  proof cases
    case is_record
    then obtain its where its: "as_class [C_Record] v = PRecord its" using as_Record by blast
    from less.prems have "all_bound (as_class [C_Record] v)" by (rule all_bound_as_class)
    with its have b: "list_all all_bound (map snd its)" by simp
    from its as_class_size [of "[C_Record]" v]
    have "Suc (size_list (size_prod (\<lambda>_. 0) size) its) \<le> size v" by simp
    with b obtain ys where "map (\<lambda>kx. to_python (snd kx)) its = map Inr ys"
      using mapping by blast
    with is_record its show ?thesis using branch_Record [of v its ys] by blast
  next
    case is_dict
    then obtain its where its: "as_class [C_dict] v = PDict its" using as_dict by blast
    from less.prems have "all_bound (as_class [C_dict] v)" by (rule all_bound_as_class)
    with its have b: "list_all all_bound (map snd its)" by simp
    from its as_class_size [of "[C_dict]" v]
    have "Suc (size_list (size_prod (\<lambda>_. 0) size) its) \<le> size v" by simp
    with b obtain ys where "map (\<lambda>kx. to_python (snd kx)) its = map Inr ys"
      using mapping by blast
    with is_dict its show ?thesis using branch_dict [of v its ys] by blast
  next
    case is_list
    then obtain xs where xs: "as_class [C_list] v = PList xs" using as_list by blast
    from less.prems have "all_bound (as_class [C_list] v)" by (rule all_bound_as_class)
    with xs have b: "list_all all_bound xs" by simp
    have "\<exists>ys. map to_python xs = map Inr ys"
    proof (rule all_return)
      fix x assume mem: "x \<in> set xs"
      then have "size x < size (PList xs)" using size_member_less [of x xs size] by simp
      with xs as_class_size [of "[C_list]" v] have "size x < size v" by simp
      moreover from b mem have "all_bound x" by (simp add: list_all_iff)
      ultimately show "\<exists>y. to_python x = Inr y" by (rule IH)
    qed
    then obtain ys where "map to_python xs = map Inr ys" by blast
    with is_list xs show ?thesis using branch_list [of v xs ys] by blast
  next
    case is_node
    then obtain n where n: "as_class [C_Node] v = PNode n" using as_Node by blast
    from less.prems have "all_bound (as_class [C_Node] v)" by (rule all_bound_as_class)
    with n have "all_bound (PDict (node_properties n))" by (cases n) simp
    moreover have "size (PDict (node_properties n)) < size (PNode n)" by (cases n) simp
    with n as_class_size [of "[C_Node]" v] have "size (PDict (node_properties n)) < size v"
      by simp
    ultimately obtain props where "to_python (PDict (node_properties n)) = Inr props"
      using IH by blast
    with is_node n show ?thesis using branch_Node [of v n props] by blast
  next
    case is_rel
    then obtain r where r: "as_class [C_Relationship] v = PRelationship r"
      using as_Relationship by blast
    from less.prems have "all_bound (as_class [C_Relationship] v)" by (rule all_bound_as_class)
    with r have b: "start_node r \<noteq> None \<and> end_node r \<noteq> None \<and>
        all_bound (PDict (rel_properties r))"
      by (cases r) simp
    then obtain a b' where ab: "start_node r = Some a" "end_node r = Some b'" by auto
    have "size (PDict (rel_properties r)) < size (PRelationship r)" by (cases r) simp
    with r as_class_size [of "[C_Relationship]" v]
    have "size (PDict (rel_properties r)) < size v" by simp
    with b obtain props where "to_python (PDict (rel_properties r)) = Inr props"
      using IH by blast
    with is_rel r ab show ?thesis using branch_Relationship [of v r a b' props] by blast
  next
    case is_path
    then obtain ns rs where p: "as_class [C_Path] v = PPath ns rs" using as_Path by blast
    from less.prems have "all_bound (as_class [C_Path] v)" by (rule all_bound_as_class)
    with p have b: "list_all (\<lambda>n. all_bound (PNode n)) ns"
      "list_all (\<lambda>r. all_bound (PRelationship r)) rs" by simp_all
    have "\<exists>ns'. map (\<lambda>n. to_python (PNode n)) ns = map Inr ns'"
    proof (rule all_return)
      fix n assume mem: "n \<in> set ns"
      then have "size (PNode n) < size (PPath ns rs)"
        using size_member_less [of n ns "size_node size"] by simp
      with p as_class_size [of "[C_Path]" v] have "size (PNode n) < size v" by simp
      moreover from b mem have "all_bound (PNode n)" by (simp add: list_all_iff)
      ultimately show "\<exists>y. to_python (PNode n) = Inr y" by (rule IH)
    qed
    moreover have "\<exists>rs'. map (\<lambda>r. to_python (PRelationship r)) rs = map Inr rs'"
    proof (rule all_return)
      fix r assume mem: "r \<in> set rs"
      then have "size (PRelationship r) < size (PPath ns rs)"
        using size_member_less [of r rs "size_relationship size"] by simp
      with p as_class_size [of "[C_Path]" v] have "size (PRelationship r) < size v" by simp
      moreover from b mem have "all_bound (PRelationship r)" by (simp add: list_all_iff)
      ultimately show "\<exists>y. to_python (PRelationship r) = Inr y" by (rule IH)
    qed
    ultimately obtain ns' rs' where "map (\<lambda>n. to_python (PNode n)) ns = map Inr ns'"
      "map (\<lambda>r. to_python (PRelationship r)) rs = map Inr rs'" by blast
    with is_path p show ?thesis using branch_Path [of v ns rs ns' rs'] by blast
  next
    case is_other
    then show ?thesis by (subst to_python.simps) (simp add: isinstance_Cons)
  qed
qed

lemma to_python_normalized: "normalized v \<Longrightarrow> to_python v = Inr v"
proof (induction v rule: normalized.induct)
  case (6 vs)
  then have "\<And>x. x \<in> set vs \<Longrightarrow> to_python x = Inr x" by (simp add: list_all_iff)
  then have "map to_python vs = map Inr vs" by simp
  then have "collect (map to_python vs) = Inr vs" by (simp only: collect_map_Inr)
  then show ?case
    by (simp add: to_python_plain list_result_def list_comprehension_def)
next
  case (7 its)
  then have "\<And>kx. kx \<in> set its \<Longrightarrow> to_python (snd kx) = Inr (snd kx)"
    by (simp add: list_all_iff)
  then have "map (\<lambda>kx. to_python (snd kx)) its = map Inr (map snd its)" by simp
  then have "map (\<lambda>(k, x). keyed k (to_python x)) its = map Inr (zip (map fst its) (map snd its))"
    by (rule keyed_all)
  then have "map (\<lambda>(k, x). keyed k (to_python x)) its = map Inr its"
    by (simp only: zip_map_fst_snd)
  then have "collect (map (\<lambda>(k, x). keyed k (to_python x)) its) = Inr its"
    by (simp only: collect_map_Inr)
  with "7.prems" show ?case
    by (simp add: to_python_plain dict_comprehension_def dict_of_items_distinct)
qed (simp_all add: to_python_plain)

text \<open>
  Claim C9. On a value that is already normalized (\<^verbatim>\<open>None\<close>, a boolean, a number,
  a string, or a list or dictionary of such values) \<^verbatim>\<open>to_python\<close> changes nothing,
  and applying it twice gives what applying it once gives.
\<close>

theorem to_python_idempotent:
  "normalized v \<Longrightarrow>
   to_python v = Inr v \<and>
   (case to_python v of Inl e \<Rightarrow> Inl e | Inr y \<Rightarrow> to_python y) = to_python v"
  by (simp add: to_python_normalized)

theorem to_python_idempotent_witness:
  "normalized (PDict [(''name'', PStr ''Ann''), (''tags'', PList [PInt 1, PNone])]) \<and>
   (to_python (PDict [(''name'', PStr ''Ann''), (''tags'', PList [PInt 1, PNone])])
      = Inr (PDict [(''name'', PStr ''Ann''), (''tags'', PList [PInt 1, PNone])]) \<and>
    (case to_python (PDict [(''name'', PStr ''Ann''), (''tags'', PList [PInt 1, PNone])]) of
       Inl e \<Rightarrow> Inl e | Inr y \<Rightarrow> to_python y)
      = to_python (PDict [(''name'', PStr ''Ann''), (''tags'', PList [PInt 1, PNone])]))"
proof -
  have h: "normalized (PDict [(''name'', PStr ''Ann''), (''tags'', PList [PInt 1, PNone])])"
    by simp
  from h to_python_idempotent [OF h] show ?thesis by (rule conjI)
qed

text \<open>
  More generally, whatever \<^verbatim>\<open>to_python\<close> returns is a fixed point of it, for every
  value of the model and not only for the normalized ones.
\<close>

lemma fixed_list:
  assumes "\<And>x. x \<in> set xs \<Longrightarrow> to_python x = Inr x"
  shows "to_python (PList xs) = Inr (PList xs)"
proof -
  from assms have "map to_python xs = map Inr xs" by simp
  then have "collect (map to_python xs) = Inr xs" by (simp only: collect_map_Inr)
  then show ?thesis by (simp add: to_python_plain list_result_def list_comprehension_def)
qed

lemma fixed_dict:
  assumes "distinct (map fst d)"
    and "\<And>kx. kx \<in> set d \<Longrightarrow> to_python (snd kx) = Inr (snd kx)"
  shows "to_python (PDict d) = Inr (PDict d)"
proof -
  from assms(2) have "map (\<lambda>kx. to_python (snd kx)) d = map Inr (map snd d)" by simp
  then have "map (\<lambda>(k, x). keyed k (to_python x)) d = map Inr (zip (map fst d) (map snd d))"
    by (rule keyed_all)
  then have "map (\<lambda>(k, x). keyed k (to_python x)) d = map Inr d"
    by (simp only: zip_map_fst_snd)
  then have "collect (map (\<lambda>(k, x). keyed k (to_python x)) d) = Inr d"
    by (simp only: collect_map_Inr)
  with assms(1) show ?thesis
    by (simp add: to_python_plain dict_comprehension_def dict_of_items_distinct)
qed

lemma mapping_fixed:
  assumes run: "dict_comprehension (map (\<lambda>(k, x). keyed k (to_python x)) its) = Inr y"
    and IH: "\<And>kx z. kx \<in> set its \<Longrightarrow> to_python (snd kx) = Inr z \<Longrightarrow> to_python z = Inr z"
  shows "to_python y = Inr y"
proof -
  let ?g = "\<lambda>(k, x). keyed k (to_python x)"
  let ?H = "\<lambda>(k, x). (k, projr (to_python x))"
  from run obtain kvs where c: "collect (map ?g its) = Inr kvs"
    and y: "y = PDict (dict_of_items kvs)"
    by (auto simp: dict_comprehension_def split: sum.splits)
  from c have "map ?g its = map Inr kvs" by (rule collect_Inr_D)
  then have ok: "\<forall>kx \<in> set its. keyed (fst kx) (to_python (snd kx))
        = Inr (fst kx, projr (to_python (snd kx)))"
    and kvs: "kvs = map ?H its"
    using keyed_success [of to_python its kvs] by simp_all
  have fixed: "to_python (snd kv) = Inr (snd kv)" if mem: "kv \<in> set (dict_of_items kvs)" for kv
  proof -
    from mem dict_of_items_subset [of kvs] have "kv \<in> set kvs" by blast
    with kvs obtain kx where kx: "kx \<in> set its" and kv: "kv = ?H kx" by auto
    from ok kx have "keyed (fst kx) (to_python (snd kx))
        = Inr (fst kx, projr (to_python (snd kx)))" by blast
    then have "to_python (snd kx) = Inr (projr (to_python (snd kx)))"
      by (cases "to_python (snd kx)") (simp_all add: keyed_def)
    with kx have "to_python (projr (to_python (snd kx))) = Inr (projr (to_python (snd kx)))"
      by (rule IH)
    with kv show ?thesis by (cases kx) simp
  qed
  have "to_python (PDict (dict_of_items kvs)) = Inr (PDict (dict_of_items kvs))"
    using dict_of_items_keys_distinct [of kvs] fixed by (rule fixed_dict)
  with y show ?thesis by simp
qed

lemma to_python_image_fixed: "to_python v = Inr y \<Longrightarrow> to_python y = Inr y"
proof (induction v arbitrary: y rule: measure_induct_rule [where f = size])
  case (less v)
  note IH = less.IH
  note run = less.prems
  have str_fixed: "\<And>s. to_python (PStr s) = Inr (PStr s)" by (simp add: to_python_plain)
  have labels_fixed: "\<And>ls. to_python (PList (map PStr ls)) = Inr (PList (map PStr ls))"
    by (rule fixed_list) (auto simp: to_python_plain)
  consider (is_record) "isinstance v [C_Record]"
    | (is_dict) "\<not> isinstance v [C_Record]" "isinstance v [C_dict]"
    | (is_list) "\<not> isinstance v [C_Record, C_dict]" "isinstance v [C_list]"
    | (is_node) "\<not> isinstance v [C_Record, C_dict, C_list]" "isinstance v [C_Node]"
    | (is_rel) "\<not> isinstance v [C_Record, C_dict, C_list, C_Node]" "isinstance v [C_Relationship]"
    | (is_path) "\<not> isinstance v [C_Record, C_dict, C_list, C_Node, C_Relationship]"
        "isinstance v [C_Path]"
    | (is_datetime) "\<not> isinstance v [C_Record, C_dict, C_list, C_Node, C_Relationship, C_Path]"
        "isinstance v [C_DateTime]"
    | (is_temporal)
        "\<not> isinstance v [C_Record, C_dict, C_list, C_Node, C_Relationship, C_Path, C_DateTime]"
        "isinstance v [C_Date, C_Time, C_Duration]"
    | (is_other) "\<not> isinstance v [C_Record, C_dict, C_list, C_Node, C_Relationship, C_Path,
        C_DateTime, C_Date, C_Time, C_Duration]"
    by (auto simp: isinstance_Cons)
  then show ?case
  proof cases
    case is_record
    then obtain its where its: "as_class [C_Record] v = PRecord its" using as_Record by blast
    from is_record its run
    have r: "dict_comprehension (map (\<lambda>(k, x). keyed k (to_python x)) its) = Inr y"
      by (subst (asm) to_python.simps) simp
    show ?thesis
    proof (rule mapping_fixed [OF r])
      fix kx z assume mem: "kx \<in> set its" and z: "to_python (snd kx) = Inr z"
      from mem have "snd kx \<in> set (map snd its)" by simp
      then have "size (snd kx) < size (PRecord its)" using size_value_less [of "snd kx" its] by simp
      with its as_class_size [of "[C_Record]" v] have "size (snd kx) < size v" by simp
      then show "to_python z = Inr z" using z by (rule IH)
    qed
  next
    case is_dict
    then obtain its where its: "as_class [C_dict] v = PDict its" using as_dict by blast
    from is_dict its run
    have r: "dict_comprehension (map (\<lambda>(k, x). keyed k (to_python x)) its) = Inr y"
      by (subst (asm) to_python.simps) simp
    show ?thesis
    proof (rule mapping_fixed [OF r])
      fix kx z assume mem: "kx \<in> set its" and z: "to_python (snd kx) = Inr z"
      from mem have "snd kx \<in> set (map snd its)" by simp
      then have "size (snd kx) < size (PDict its)" using size_value_less [of "snd kx" its] by simp
      with its as_class_size [of "[C_dict]" v] have "size (snd kx) < size v" by simp
      then show "to_python z = Inr z" using z by (rule IH)
    qed
  next
    case is_list
    then obtain xs where xs: "as_class [C_list] v = PList xs" using as_list by blast
    from is_list xs run have "list_result (collect (map to_python xs)) = Inr y"
      by (subst (asm) to_python.simps) (simp add: isinstance_Cons list_comprehension_def)
    then obtain ys where c: "collect (map to_python xs) = Inr ys" and y: "y = PList ys"
      by (auto simp: list_result_def split: sum.splits)
    from c have m: "map to_python xs = map Inr ys" by (rule collect_Inr_D)
    have "to_python (PList ys) = Inr (PList ys)"
    proof (rule fixed_list)
      fix z assume "z \<in> set ys"
      with m obtain x where mem: "x \<in> set xs" and z: "to_python x = Inr z"
        using map_Inr_member [of to_python xs ys z] by blast
      from mem have "size x < size (PList xs)" using size_member_less [of x xs size] by simp
      with xs as_class_size [of "[C_list]" v] have "size x < size v" by simp
      then show "to_python z = Inr z" using z by (rule IH)
    qed
    with y show ?thesis by simp
  next
    case is_node
    then obtain n where n: "as_class [C_Node] v = PNode n" using as_Node by blast
    from is_node n run
    have "node_display n (to_python (PDict (node_properties n))) = Inr y"
      by (subst (asm) to_python.simps) (simp add: isinstance_Cons)
    then obtain props where p: "to_python (PDict (node_properties n)) = Inr props"
      and y: "y = PDict [(''id'', PInt (node_id n)), (''labels'', PList (map PStr (labels n))),
                         (''properties'', props)]"
      by (auto simp: node_display_def split: sum.splits)
    have "size (PDict (node_properties n)) < size (PNode n)" by (cases n) simp
    with n as_class_size [of "[C_Node]" v] have "size (PDict (node_properties n)) < size v"
      by simp
    then have "to_python props = Inr props" using p by (rule IH)
    with labels_fixed have "to_python y = Inr y"
      unfolding y by (intro fixed_dict) (auto simp: to_python_plain)
    then show ?thesis .
  next
    case is_rel
    then obtain r where r: "as_class [C_Relationship] v = PRelationship r"
      using as_Relationship by blast
    from is_rel r run
    have "relationship_display r (to_python (PDict (rel_properties r))) = Inr y"
      by (subst (asm) to_python.simps) (simp add: isinstance_Cons)
    then have "\<exists>(a :: pyval node) (b :: pyval node) props. to_python (PDict (rel_properties r)) = Inr props \<and>
        y = PDict [(''id'', PInt (rel_id r)), (''type'', PStr (rel_type r)),
                   (''start_node'', PInt (node_id a)), (''end_node'', PInt (node_id b)),
                   (''properties'', props)]"
      by (cases "start_node r"; cases "end_node r";
          cases "to_python (PDict (rel_properties r))")
        (auto simp: relationship_display_def)
    then obtain a :: "pyval node" and b :: "pyval node" and props
      where p: "to_python (PDict (rel_properties r)) = Inr props"
      and y: "y = PDict [(''id'', PInt (rel_id r)), (''type'', PStr (rel_type r)),
                         (''start_node'', PInt (node_id a)), (''end_node'', PInt (node_id b)),
                         (''properties'', props)]"
      by blast
    have "size (PDict (rel_properties r)) < size (PRelationship r)" by (cases r) simp
    with r as_class_size [of "[C_Relationship]" v]
    have "size (PDict (rel_properties r)) < size v" by simp
    then have "to_python props = Inr props" using p by (rule IH)
    then have "to_python y = Inr y"
      unfolding y by (intro fixed_dict) (auto simp: to_python_plain)
    then show ?thesis .
  next
    case is_path
    then obtain ns rs where p: "as_class [C_Path] v = PPath ns rs" using as_Path by blast
    from is_path p run
    have "path_display (collect (map (\<lambda>n. to_python (PNode n)) ns))
        (collect (map (\<lambda>r. to_python (PRelationship r)) rs)) = Inr y"
      by (subst (asm) to_python.simps) (simp add: isinstance_Cons list_comprehension_def)
    then obtain ns' rs' where cn: "collect (map (\<lambda>n. to_python (PNode n)) ns) = Inr ns'"
      and cr: "collect (map (\<lambda>r. to_python (PRelationship r)) rs) = Inr rs'"
      and y: "y = PDict [(''nodes'', PList ns'), (''relationships'', PList rs')]"
      by (auto simp: path_display_def split: sum.splits)
    from cn have mn: "map (\<lambda>n. to_python (PNode n)) ns = map Inr ns'" by (rule collect_Inr_D)
    from cr have mr: "map (\<lambda>r. to_python (PRelationship r)) rs = map Inr rs'"
      by (rule collect_Inr_D)
    have fn: "to_python (PList ns') = Inr (PList ns')"
    proof (rule fixed_list)
      fix z assume "z \<in> set ns'"
      with mn obtain n where mem: "n \<in> set ns" and z: "to_python (PNode n) = Inr z"
        using map_Inr_member [of "\<lambda>n. to_python (PNode n)" ns ns' z] by blast
      from mem have "size (PNode n) < size (PPath ns rs)"
        using size_member_less [of n ns "size_node size"] by simp
      with p as_class_size [of "[C_Path]" v] have "size (PNode n) < size v" by simp
      then show "to_python z = Inr z" using z by (rule IH)
    qed
    have fr: "to_python (PList rs') = Inr (PList rs')"
    proof (rule fixed_list)
      fix z assume "z \<in> set rs'"
      with mr obtain r where mem: "r \<in> set rs" and z: "to_python (PRelationship r) = Inr z"
        using map_Inr_member [of "\<lambda>r. to_python (PRelationship r)" rs rs' z] by blast
      from mem have "size (PRelationship r) < size (PPath ns rs)"
        using size_member_less [of r rs "size_relationship size"] by simp
      with p as_class_size [of "[C_Path]" v] have "size (PRelationship r) < size v" by simp
      then show "to_python z = Inr z" using z by (rule IH)
    qed
    from fn fr have "to_python y = Inr y"
      unfolding y by (intro fixed_dict) auto
    then show ?thesis .
  next
    case is_datetime
    with run have "y = PStr (iso_format (as_class [C_DateTime] v))"
      by (subst (asm) to_python.simps) (simp add: isinstance_Cons)
    with str_fixed show ?thesis by simp
  next
    case is_temporal
    with run have "y = PStr (str_of (as_class [C_Date, C_Time, C_Duration] v))"
      by (subst (asm) to_python.simps) (simp add: isinstance_Cons)
    with str_fixed show ?thesis by simp
  next
    case is_other
    then have "to_python v = Inr v" by (rule branch_else)
    with run show ?thesis by simp
  qed
qed

section \<open>Properties of the gateway\<close>

text \<open>
  What a call of \<^verbatim>\<open>send_query\<close> returns or raises, and what it does to the session,
  case by case: the session cannot be had; closing it raises; the query, the
  materialization or the normalization raises; the query succeeds.
\<close>

lemma to_python_record_data:
  assumes "to_python (PRecord its) = Inr y"
  shows "to_python (PDict (dict_of_items its)) = Inr y"
proof -
  let ?g = "\<lambda>(k, x). keyed k (to_python x)"
  let ?H = "\<lambda>(k, x). (k, projr (to_python x))"
  from assms obtain kvs where c: "collect (map ?g its) = Inr kvs"
    and y: "y = PDict (dict_of_items kvs)"
    by (auto simp: to_python_plain dict_comprehension_def split: sum.splits)
  from c have "map ?g its = map Inr kvs" by (rule collect_Inr_D)
  then have ok: "\<forall>kx \<in> set its. keyed (fst kx) (to_python (snd kx))
        = Inr (fst kx, projr (to_python (snd kx)))"
    and kvs: "kvs = map ?H its"
    using keyed_success [of to_python its kvs] by simp_all
  have "\<And>kx. kx \<in> set (dict_of_items its) \<Longrightarrow> ?g kx = Inr (?H kx)"
  proof -
    fix kx assume "kx \<in> set (dict_of_items its)"
    with dict_of_items_subset [of its] have "kx \<in> set its" by blast
    with ok have "keyed (fst kx) (to_python (snd kx)) = Inr (fst kx, projr (to_python (snd kx)))"
      by blast
    then show "?g kx = Inr (?H kx)" by (cases kx) simp
  qed
  then have "map ?g (dict_of_items its) = map Inr (map ?H (dict_of_items its))"
    by simp
  then have "collect (map ?g (dict_of_items its)) = Inr (map ?H (dict_of_items its))"
    by (simp only: collect_map_Inr)
  then have "to_python (PDict (dict_of_items its))
      = Inr (PDict (dict_of_items (map ?H (dict_of_items its))))"
    by (simp add: to_python_plain dict_comprehension_def)
  also have "dict_of_items (map ?H (dict_of_items its)) = dict_of_items (map ?H its)"
    by (simp add: dict_of_items_map_values dict_of_items_idem)
  finally show ?thesis using y kvs by simp
qed

lemma send_query_unfold:
  "send_query self q p t =
     (case driver_session (driver self) of
        Inl e \<Rightarrow> (Inl e, t)
      | Inr s \<Rightarrow>
          (case session_close s of
             Some e \<Rightarrow> Inl e
           | None \<Rightarrow>
               (case session_run s q (or_empty p) [(''database_'', PStr (database_name self))] of
                  Inl (PyException m) \<Rightarrow> Inr (tool_error m)
                | Inl (PyBaseException m) \<Rightarrow> Inl (PyBaseException m)
                | Inr result \<Rightarrow>
                    (case result_to_adk result of
                       Inl (PyException m) \<Rightarrow> Inr (tool_error m)
                     | Inl (PyBaseException m) \<Rightarrow> Inl (PyBaseException m)
                     | Inr envelope \<Rightarrow> Inr envelope)),
           t @ [Session_Opened,
                Query_Run q (or_empty p) [(''database_'', PStr (database_name self))],
                Session_Closed]))"
  by (simp add: send_query_def call_session_def call_run_def call_close_def
      try_finally_def try_except_Exception_def
      split: sum.splits exc.splits option.splits prod.splits)

lemma tool_success_query_result:
  "tool_success ''query_result'' v = [(''status'', PStr ''success''), (''query_result'', v)]"
  by (simp add: tool_success_def dict_of_items_def)


lemma send_query_session_raises:
  "driver_session (driver self) = Inl e \<Longrightarrow> send_query self q p t = (Inl e, t)"
  by (simp add: send_query_unfold)

lemma send_query_returns_envelope:
  assumes "fst (send_query self q p t) = Inr env"
  shows "(\<exists>m. env = tool_error m) \<or> (\<exists>v. env = tool_success ''query_result'' v)"
  using assms
  by (auto simp: send_query_unfold result_to_adk_def
      split: sum.splits exc.splits option.splits)

lemma envelope_invariant_tool_success:
  "key \<noteq> ''status'' \<Longrightarrow> key \<noteq> ''error_message'' \<Longrightarrow>
   envelope_invariant key (tool_success key result)"
  by (simp add: envelope_invariant_def tool_success_def dict_of_items_def has_key_def)

lemma envelope_invariant_tool_error:
  "key \<noteq> ''status'' \<Longrightarrow> key \<noteq> ''error_message'' \<Longrightarrow>
   envelope_invariant key (tool_error message)"
  by (simp add: envelope_invariant_def tool_error_def has_key_def)

text \<open>
  Claim C1. The specification and the docstring of \<^verbatim>\<open>send_query\<close> have every
  exception of the call, session acquisition included, returned as an error envelope.
  \<^verbatim>\<open>self._driver.session()\<close> is called before the \<^verbatim>\<open>try\<close> statement: on a driver
  that has been closed the exception leaves \<^verbatim>\<open>send_query\<close>, and no envelope is
  returned.
\<close>

theorem send_query_session_error_propagates:
  "send_query \<lparr>database_name = ''neo4j'', driver = closed_driver\<rparr> ''RETURN 1 AS x'' None []
   = (Inl (PyException ''Driver closed''), [])"
  by (simp add: send_query_unfold closed_driver_def)

text \<open>
  What holds of the code: an exception that is an instance of \<^verbatim>\<open>Exception\<close>, raised
  by the execution of the query, by the materialization of its result or by the
  normalization of a record (the body of the \<^verbatim>\<open>try\<close>), is caught, and the call
  returns the error envelope holding \<^verbatim>\<open>str(e)\<close>, provided that closing the session
  does not raise.
\<close>

lemma send_query_catches_Exception:
  assumes "driver_session (driver self) = Inr s" and "session_close s = None"
    and "session_run s q (or_empty p) [(''database_'', PStr (database_name self))]
           = Inl (PyException m) \<or>
         (\<exists>result. session_run s q (or_empty p) [(''database_'', PStr (database_name self))]
             = Inr result \<and>
            (to_eager_result result = Inl (PyException m) \<or>
             (\<exists>records. to_eager_result result = Inr records \<and>
                collect (map (\<lambda>record. to_python (record_data record)) records)
                  = Inl (PyException m))))"
  shows "fst (send_query self q p t) = Inr (tool_error m)"
  using assms by (auto simp: send_query_unfold result_to_adk_def list_comprehension_def)

text \<open>
  \<^verbatim>\<open>result_to_adk\<close> normalizes \<^verbatim>\<open>record.data()\<close>, not the record. For a record
  whose column holds a node the payload has the node's properties only, where the
  normalization of the record has \<open>{id, labels, properties}\<close>.
\<close>

theorem send_query_node_record_not_normalized:
  "fst (send_query \<lparr>database_name = ''neo4j'', driver = \<lparr>driver_session = Inr node_session\<rparr>\<rparr>
          ''MATCH (n) RETURN n'' None [])
     = Inr [(''status'', PStr ''success''),
            (''query_result'', PList [PDict [(''n'', PDict [(''name'', PStr ''Ann'')])]])] \<and>
   map (\<lambda>record. to_python (PRecord (record_items record))) [node_record]
     = [Inr (PDict [(''n'', PDict [(''id'', PInt 5), (''labels'', PList [PStr ''Person'']),
                                   (''properties'', PDict [(''name'', PStr ''Ann'')])])])]"
  by (simp add: send_query_unfold node_session_def node_record_def ann_def result_to_adk_def
      tool_success_def dict_of_items_def or_empty_def to_python_plain comprehension_defs
      keyed_def node_display_def)

text \<open>
  Claim C2, as the code has it. When the session is acquired, the query runs, its result
  materializes, every \<^verbatim>\<open>to_python(record.data())\<close> returns and the session closes
  without an exception, \<^verbatim>\<open>send_query\<close> returns the success envelope whose payload
  key is \<^verbatim>\<open>query_result\<close>, holding in result order \<^verbatim>\<open>to_python(record.data())\<close>
  for every record. Where \<^verbatim>\<open>data()\<close> is the plain dictionary of the record's items,
  that is the normalization of the record.
\<close>

theorem send_query_success:
  assumes "driver_session (driver self) = Inr s"
    and "session_run s q (or_empty p) [(''database_'', PStr (database_name self))] = Inr result"
    and "to_eager_result result = Inr records"
    and "map (\<lambda>record. to_python (record_data record)) records = map Inr payload"
    and "session_close s = None"
  shows "fst (send_query self q p t)
           = Inr [(''status'', PStr ''success''), (''query_result'', PList payload)] \<and>
         ((\<forall>record \<in> set records.
              record_data record = PDict (dict_of_items (record_items record)) \<and>
              \<not> isl (to_python (PRecord (record_items record))))
            \<longrightarrow> map (\<lambda>record. to_python (record_data record)) records
                = map (\<lambda>record. to_python (PRecord (record_items record))) records)"
proof
  from assms(4) have "collect (map (\<lambda>record. to_python (record_data record)) records) = Inr payload"
    by (simp only: collect_map_Inr)
  with assms show "fst (send_query self q p t)
      = Inr [(''status'', PStr ''success''), (''query_result'', PList payload)]"
    by (simp add: send_query_unfold result_to_adk_def list_comprehension_def
        tool_success_query_result)
  show "(\<forall>record \<in> set records.
            record_data record = PDict (dict_of_items (record_items record)) \<and>
            \<not> isl (to_python (PRecord (record_items record))))
      \<longrightarrow> map (\<lambda>record. to_python (record_data record)) records
          = map (\<lambda>record. to_python (PRecord (record_items record))) records"
  proof
    assume h: "\<forall>record \<in> set records.
        record_data record = PDict (dict_of_items (record_items record)) \<and>
        \<not> isl (to_python (PRecord (record_items record)))"
    have "\<And>r. r \<in> set records \<Longrightarrow>
        to_python (record_data r) = to_python (PRecord (record_items r))"
    proof -
      fix r assume "r \<in> set records"
      with h have d: "record_data r = PDict (dict_of_items (record_items r))"
        and "\<not> isl (to_python (PRecord (record_items r)))" by blast+
      then obtain y where y: "to_python (PRecord (record_items r)) = Inr y"
        by (cases "to_python (PRecord (record_items r))") auto
      then have "to_python (PDict (dict_of_items (record_items r))) = Inr y"
        by (rule to_python_record_data)
      with d y show "to_python (record_data r) = to_python (PRecord (record_items r))"
        by simp
    qed
    then show "map (\<lambda>record. to_python (record_data record)) records
        = map (\<lambda>record. to_python (PRecord (record_items record))) records"
      by simp
  qed
qed

theorem send_query_success_witness:
  "fst (send_query \<lparr>database_name = ''neo4j'', driver = \<lparr>driver_session = Inr answering_session\<rparr>\<rparr>
          ''RETURN 1 AS x'' None [])
     = Inr [(''status'', PStr ''success''), (''query_result'', PList [PDict [(''x'', PInt 1)]])] \<and>
   map (\<lambda>record. to_python (record_data record))
       [\<lparr>record_items = [(''x'', PInt 1)], record_data = PDict [(''x'', PInt 1)]\<rparr>]
     = map (\<lambda>record. to_python (PRecord (record_items record)))
       [\<lparr>record_items = [(''x'', PInt 1)], record_data = PDict [(''x'', PInt 1)]\<rparr>]"
proof -
  let ?g = "\<lparr>database_name = ''neo4j'', driver = \<lparr>driver_session = Inr answering_session\<rparr>\<rparr>"
  let ?r = "\<lparr>record_items = [(''x'', PInt 1)], record_data = PDict [(''x'', PInt 1)]\<rparr>"
  have 1: "driver_session (driver ?g) = Inr answering_session" by simp
  have 2: "session_run answering_session ''RETURN 1 AS x'' (or_empty None)
      [(''database_'', PStr (database_name ?g))] = Inr \<lparr>to_eager_result = Inr [?r]\<rparr>"
    by (simp add: answering_session_def)
  have 3: "to_eager_result \<lparr>to_eager_result = Inr [?r]\<rparr> = Inr [?r]" by simp
  have 4: "map (\<lambda>record. to_python (record_data record)) [?r] = map Inr [PDict [(''x'', PInt 1)]]"
    by (simp add: to_python_plain comprehension_defs keyed_def dict_of_items_def)
  have 5: "session_close answering_session = None" by (simp add: answering_session_def)
  have 6: "\<forall>record \<in> set [?r].
      record_data record = PDict (dict_of_items (record_items record)) \<and>
      \<not> isl (to_python (PRecord (record_items record)))"
    by (simp add: to_python_plain comprehension_defs keyed_def dict_of_items_def)
  note inst = send_query_success [OF 1 2 3 4 5, of "[]"]
  have a: "fst (send_query ?g ''RETURN 1 AS x'' None [])
      = Inr [(''status'', PStr ''success''), (''query_result'', PList [PDict [(''x'', PInt 1)]])]"
    by (rule inst [THEN conjunct1])
  have b: "map (\<lambda>record. to_python (record_data record)) [?r]
      = map (\<lambda>record. to_python (PRecord (record_items record))) [?r]"
    using 6 by (rule inst [THEN conjunct2, THEN mp])
  from a b show ?thesis by (rule conjI)
qed


text \<open>
  \<^verbatim>\<open>tool_success\<close> puts the caller's key into the same display as \<^verbatim>\<open>status\<close>: with
  the key \<^verbatim>\<open>status\<close> the result has one entry, and its status is the payload.
\<close>

theorem tool_success_status_key_breaks_invariant:
  "tool_success ''status'' (PInt 1) = [(''status'', PInt 1)] \<and>
   \<not> envelope_invariant ''status'' (tool_success ''status'' (PInt 1))"
  by (simp add: tool_success_def dict_of_items_def envelope_invariant_def has_key_def)

text \<open>
  Claim C7, as the code has it. For a payload key other than \<^verbatim>\<open>status\<close> and
  \<^verbatim>\<open>error_message\<close>, the envelopes of \<^verbatim>\<open>tool_success\<close> and \<^verbatim>\<open>tool_error\<close> have a
  status of \<^verbatim>\<open>success\<close> or \<^verbatim>\<open>error\<close> and exactly one of the payload key and
  \<^verbatim>\<open>error_message\<close>, as the status says. Every envelope that \<^verbatim>\<open>send_query\<close>
  returns is such an envelope for the key \<^verbatim>\<open>query_result\<close>.
\<close>

theorem envelope_invariant_holds:
  "(key \<noteq> ''status'' \<and> key \<noteq> ''error_message'' \<longrightarrow>
      envelope_invariant key (tool_success key result) \<and>
      envelope_invariant key (tool_error message)) \<and>
   (fst (send_query self q p t) = Inr env \<longrightarrow> envelope_invariant ''query_result'' env)"
proof (intro conjI impI)
  assume "key \<noteq> ''status'' \<and> key \<noteq> ''error_message''"
  then show "envelope_invariant key (tool_success key result)"
    and "envelope_invariant key (tool_error message)"
    by (simp_all add: envelope_invariant_tool_success envelope_invariant_tool_error)
next
  assume "fst (send_query self q p t) = Inr env"
  then have "(\<exists>m. env = tool_error m) \<or> (\<exists>v. env = tool_success ''query_result'' v)"
    by (rule send_query_returns_envelope)
  then show "envelope_invariant ''query_result'' env"
    using envelope_invariant_tool_success [of "''query_result''"]
      envelope_invariant_tool_error [of "''query_result''"]
    by auto
qed

theorem envelope_invariant_holds_witness:
  "envelope_invariant ''query_result'' (tool_success ''query_result'' (PList [])) \<and>
   envelope_invariant ''query_result'' (tool_error ''Invalid input'') \<and>
   envelope_invariant ''query_result''
     [(''status'', PStr ''success''), (''query_result'', PList [PDict [(''x'', PInt 1)]])]"
proof -
  let ?g = "\<lparr>database_name = ''neo4j'', driver = \<lparr>driver_session = Inr answering_session\<rparr>\<rparr>"
  let ?env = "[(''status'', PStr ''success''), (''query_result'', PList [PDict [(''x'', PInt 1)]])]"
  have k: "''query_result'' \<noteq> ''status'' \<and> ''query_result'' \<noteq> ''error_message''" by simp
  have r: "fst (send_query ?g ''RETURN 1 AS x'' None []) = Inr ?env"
    by (simp add: send_query_unfold answering_session_def result_to_adk_def
        tool_success_def dict_of_items_def or_empty_def to_python_plain comprehension_defs
        keyed_def)
  from k r envelope_invariant_holds [where key = "''query_result''" and result = "PList []"
      and message = "''Invalid input''" and self = ?g and q = "''RETURN 1 AS x''" and p = None
      and t = "[]" and env = ?env]
  show ?thesis by blast
qed

text \<open>
  Claim C10. With the parameters omitted the query is to run with an empty parameter
  mapping. \<^verbatim>\<open>send_query\<close> passes the database name to \<^verbatim>\<open>session.run\<close> as the
  keyword \<^verbatim>\<open>database_\<close>, and the driver takes every keyword of \<^verbatim>\<open>run\<close> for a
  query parameter: the query of a call without parameters runs with the one parameter
  \<^verbatim>\<open>database_\<close>, not with an empty mapping.
\<close>

theorem send_query_default_passes_database_keyword:
  "send_query_default
     \<lparr>database_name = ''neo4j'', driver = \<lparr>driver_session = Inr answering_session\<rparr>\<rparr>
     ''RETURN 1 AS x'' []
   = (Inr [(''status'', PStr ''success''), (''query_result'', PList [PDict [(''x'', PInt 1)]])],
      [Session_Opened, Query_Run ''RETURN 1 AS x'' [] [(''database_'', PStr ''neo4j'')],
       Session_Closed]) \<and>
   query_parameters [] [(''database_'', PStr ''neo4j'')] = [(''database_'', PStr ''neo4j'')]"
  by (simp add: send_query_default_def send_query_unfold answering_session_def result_to_adk_def
      tool_success_def dict_of_items_def or_empty_def to_python_plain comprehension_defs
      keyed_def query_parameters_def)

text \<open>
  What holds of the code: \<^verbatim>\<open>parameters or {}\<close> passes an empty dictionary by
  position when the argument is omitted, \<^verbatim>\<open>None\<close> or an empty dictionary, and the
  three calls do the same and return the same.
\<close>

lemma send_query_empty_parameters:
  "p = None \<or> p = Some [] \<Longrightarrow>
   send_query self q p t = send_query_default self q t \<and>
   send_query self q p t = send_query self q (Some []) t"
  by (auto simp: send_query_default_def send_query_unfold or_empty_def split: sum.splits)

section \<open>Properties of the construction\<close>

lemma init_unfold:
  "neo4j_for_adk_init env gdd t =
     (case gdd (getenv env ''NEO4J_URI'') (neo4j_username env, getenv env ''NEO4J_PASSWORD'') of
        Inl e \<Rightarrow> Inl e
      | Inr d \<Rightarrow> Inr \<lparr>database_name = neo4j_database env, driver = d\<rparr>,
      t @ [Driver_Requested (getenv env ''NEO4J_URI'') (neo4j_username env)
             (getenv env ''NEO4J_PASSWORD'')])"
  by (simp add: neo4j_for_adk_init_def call_graph_database_driver_def neo4j_uri_def
      neo4j_password_def split: sum.splits)

lemma bolt_scheme: "uri_scheme ''bolt://localhost:7687'' = ''bolt''"
  by (simp add: uri_scheme_def)

text \<open>
  Construction checks nothing itself, and the driver library builds the driver object
  without connecting. With the URI set and the password not set, construction returns
  an instance.
\<close>

theorem init_without_password_returns_instance:
  "neo4j_for_adk_init [''NEO4J_URI'' \<mapsto> ''bolt://localhost:7687'']
     (graph_database_driver_model unauthorized_driver) []
   = (Inr \<lparr>database_name = ''neo4j'', driver = unauthorized_driver\<rparr>,
      [Driver_Requested (Some ''bolt://localhost:7687'') ''neo4j'' None])"
  by (simp add: init_unfold graph_database_driver_model_def bolt_scheme supported_uri_schemes_def
      neo4j_username_def neo4j_database_def getenv_def or_default_def or_str_def)

text \<open>
  Claim C3, as the code has it. Construction calls \<^verbatim>\<open>GraphDatabase.driver\<close> exactly
  once, with the URI, the user name and the password as the environment has them
  (\<^verbatim>\<open>None\<close> when not set), and calls nothing else. It raises exactly when that call
  raises, with the same exception and without a second attempt or an envelope;
  otherwise it returns the instance holding the driver. With the URI not set the
  library's call raises its configuration error, and so does construction.
\<close>

theorem init_requests_driver_once:
  "snd (neo4j_for_adk_init env graph_database_driver t)
     = t @ [Driver_Requested (getenv env ''NEO4J_URI'') (neo4j_username env)
              (getenv env ''NEO4J_PASSWORD'')] \<and>
   (graph_database_driver (getenv env ''NEO4J_URI'')
        (neo4j_username env, getenv env ''NEO4J_PASSWORD'') = Inl e \<longrightarrow>
      fst (neo4j_for_adk_init env graph_database_driver t) = Inl e) \<and>
   (graph_database_driver (getenv env ''NEO4J_URI'')
        (neo4j_username env, getenv env ''NEO4J_PASSWORD'') = Inr d \<longrightarrow>
      fst (neo4j_for_adk_init env graph_database_driver t)
        = Inr \<lparr>database_name = neo4j_database env, driver = d\<rparr>) \<and>
   (getenv env ''NEO4J_URI'' = None \<longrightarrow>
      fst (neo4j_for_adk_init env (graph_database_driver_model built) t)
        = Inl (unsupported_scheme None))"
  by (simp add: init_unfold graph_database_driver_model_def)

theorem init_requests_driver_once_witness:
  "neo4j_for_adk_init Map.empty (graph_database_driver_model unauthorized_driver) []
     = (Inl (unsupported_scheme None), [Driver_Requested None ''neo4j'' None]) \<and>
   neo4j_for_adk_init [''NEO4J_URI'' \<mapsto> ''bolt://localhost:7687'',
        ''NEO4J_PASSWORD'' \<mapsto> ''secret''] (graph_database_driver_model unauthorized_driver) []
     = (Inr \<lparr>database_name = ''neo4j'', driver = unauthorized_driver\<rparr>,
        [Driver_Requested (Some ''bolt://localhost:7687'') ''neo4j'' (Some ''secret'')])"
proof -
  let ?lib = "graph_database_driver_model unauthorized_driver"
  let ?env = "[''NEO4J_URI'' \<mapsto> ''bolt://localhost:7687'', ''NEO4J_PASSWORD'' \<mapsto> ''secret'']"
  note a = init_requests_driver_once [where env = Map.empty and graph_database_driver = ?lib
      and built = unauthorized_driver and t = "[]"]
  note b = init_requests_driver_once [where env = ?env and graph_database_driver = ?lib
      and d = unauthorized_driver and t = "[]"]
  have u: "getenv Map.empty ''NEO4J_URI'' = None" by (simp add: getenv_def)
  have ok: "?lib (getenv ?env ''NEO4J_URI'') (neo4j_username ?env, getenv ?env ''NEO4J_PASSWORD'')
      = Inr unauthorized_driver"
    by (simp add: graph_database_driver_model_def getenv_def bolt_scheme supported_uri_schemes_def)
  have a1: "snd (neo4j_for_adk_init Map.empty ?lib [])
      = [] @ [Driver_Requested (getenv Map.empty ''NEO4J_URI'') (neo4j_username Map.empty)
               (getenv Map.empty ''NEO4J_PASSWORD'')]"
    by (rule a [THEN conjunct1])
  have a2: "fst (neo4j_for_adk_init Map.empty ?lib []) = Inl (unsupported_scheme None)"
    using u by (rule a [THEN conjunct2, THEN conjunct2, THEN conjunct2, THEN mp])
  have b1: "snd (neo4j_for_adk_init ?env ?lib [])
      = [] @ [Driver_Requested (getenv ?env ''NEO4J_URI'') (neo4j_username ?env)
               (getenv ?env ''NEO4J_PASSWORD'')]"
    by (rule b [THEN conjunct1])
  have b2: "fst (neo4j_for_adk_init ?env ?lib [])
      = Inr \<lparr>database_name = neo4j_database ?env, driver = unauthorized_driver\<rparr>"
    using ok by (rule b [THEN conjunct2, THEN conjunct2, THEN conjunct1, THEN mp])
  from a1 a2 have 1: "neo4j_for_adk_init Map.empty ?lib []
      = (Inl (unsupported_scheme None), [Driver_Requested None ''neo4j'' None])"
    by (simp add: prod_eq_iff getenv_def neo4j_username_def or_default_def)
  from b1 b2 have 2: "neo4j_for_adk_init ?env ?lib []
      = (Inr \<lparr>database_name = ''neo4j'', driver = unauthorized_driver\<rparr>,
         [Driver_Requested (Some ''bolt://localhost:7687'') ''neo4j'' (Some ''secret'')])"
    by (simp add: prod_eq_iff getenv_def neo4j_username_def neo4j_database_def or_default_def
        or_str_def)
  from 1 2 show ?thesis by (rule conjI)
qed

text \<open>
  Claim C6. With \<^verbatim>\<open>NEO4J_USERNAME\<close> and \<^verbatim>\<open>NEO4J_DATABASE\<close> not set, the driver is
  built for the user \<^verbatim>\<open>neo4j\<close> and the database name is \<^verbatim>\<open>neo4j\<close>; with only
  \<^verbatim>\<open>NEO4J_DATABASE\<close> not set, the database name is the user name of the environment.
  The URI and the password have no default: they reach the driver as \<^verbatim>\<open>None\<close> when
  not set.
\<close>

theorem init_defaults:
  "(getenv env ''NEO4J_USERNAME'' = None \<and> getenv env ''NEO4J_DATABASE'' = None \<longrightarrow>
      neo4j_for_adk_init env graph_database_driver t =
        (case graph_database_driver (getenv env ''NEO4J_URI'') (''neo4j'', getenv env ''NEO4J_PASSWORD'') of
           Inl e \<Rightarrow> Inl e
         | Inr d \<Rightarrow> Inr \<lparr>database_name = ''neo4j'', driver = d\<rparr>,
         t @ [Driver_Requested (getenv env ''NEO4J_URI'') ''neo4j'' (getenv env ''NEO4J_PASSWORD'')])) \<and>
   (getenv env ''NEO4J_USERNAME'' = Some u \<and> u \<noteq> [] \<and> getenv env ''NEO4J_DATABASE'' = None \<longrightarrow>
      neo4j_for_adk_init env graph_database_driver t =
        (case graph_database_driver (getenv env ''NEO4J_URI'') (u, getenv env ''NEO4J_PASSWORD'') of
           Inl e \<Rightarrow> Inl e
         | Inr d \<Rightarrow> Inr \<lparr>database_name = u, driver = d\<rparr>,
         t @ [Driver_Requested (getenv env ''NEO4J_URI'') u (getenv env ''NEO4J_PASSWORD'')])) \<and>
   (getenv env ''NEO4J_USERNAME'' = None \<longrightarrow> neo4j_username env = ''neo4j'') \<and>
   (getenv env ''NEO4J_URI'' = None \<longrightarrow> neo4j_uri env = None) \<and>
   (getenv env ''NEO4J_PASSWORD'' = None \<longrightarrow> neo4j_password env = None)"
  by (auto simp: init_unfold neo4j_uri_def neo4j_username_def neo4j_password_def
      neo4j_database_def or_default_def or_str_def split: sum.splits)

theorem init_defaults_witness:
  "neo4j_for_adk_init [''NEO4J_URI'' \<mapsto> ''bolt://localhost:7687'']
       (graph_database_driver_model unauthorized_driver) []
     = (Inr \<lparr>database_name = ''neo4j'', driver = unauthorized_driver\<rparr>,
        [Driver_Requested (Some ''bolt://localhost:7687'') ''neo4j'' None]) \<and>
   neo4j_for_adk_init [''NEO4J_URI'' \<mapsto> ''bolt://localhost:7687'', ''NEO4J_USERNAME'' \<mapsto> ''alice'']
       (graph_database_driver_model unauthorized_driver) []
     = (Inr \<lparr>database_name = ''alice'', driver = unauthorized_driver\<rparr>,
        [Driver_Requested (Some ''bolt://localhost:7687'') ''alice'' None]) \<and>
   neo4j_username Map.empty = ''neo4j'' \<and> neo4j_uri Map.empty = None \<and>
   neo4j_password Map.empty = None"
proof -
  let ?lib = "graph_database_driver_model unauthorized_driver"
  let ?e1 = "[''NEO4J_URI'' \<mapsto> ''bolt://localhost:7687'']"
  let ?e2 = "[''NEO4J_URI'' \<mapsto> ''bolt://localhost:7687'', ''NEO4J_USERNAME'' \<mapsto> ''alice'']"
  have a: "getenv ?e1 ''NEO4J_USERNAME'' = None \<and> getenv ?e1 ''NEO4J_DATABASE'' = None"
    by (simp add: getenv_def)
  have b: "getenv ?e2 ''NEO4J_USERNAME'' = Some ''alice'' \<and> ''alice'' \<noteq> [] \<and>
      getenv ?e2 ''NEO4J_DATABASE'' = None"
    by (simp add: getenv_def)
  have c: "getenv Map.empty ''NEO4J_USERNAME'' = None" "getenv Map.empty ''NEO4J_URI'' = None"
    "getenv Map.empty ''NEO4J_PASSWORD'' = None"
    by (simp_all add: getenv_def)
  from a init_defaults [where env = ?e1 and graph_database_driver = ?lib and t = "[]"]
  have 1: "neo4j_for_adk_init ?e1 ?lib [] =
      (case ?lib (getenv ?e1 ''NEO4J_URI'') (''neo4j'', getenv ?e1 ''NEO4J_PASSWORD'') of
         Inl e \<Rightarrow> Inl e
       | Inr d \<Rightarrow> Inr \<lparr>database_name = ''neo4j'', driver = d\<rparr>,
       [] @ [Driver_Requested (getenv ?e1 ''NEO4J_URI'') ''neo4j'' (getenv ?e1 ''NEO4J_PASSWORD'')])"
    by blast
  from b init_defaults [where env = ?e2 and graph_database_driver = ?lib and t = "[]"
      and u = "''alice''"]
  have 2: "neo4j_for_adk_init ?e2 ?lib [] =
      (case ?lib (getenv ?e2 ''NEO4J_URI'') (''alice'', getenv ?e2 ''NEO4J_PASSWORD'') of
         Inl e \<Rightarrow> Inl e
       | Inr d \<Rightarrow> Inr \<lparr>database_name = ''alice'', driver = d\<rparr>,
       [] @ [Driver_Requested (getenv ?e2 ''NEO4J_URI'') ''alice'' (getenv ?e2 ''NEO4J_PASSWORD'')])"
    by blast
  from c init_defaults [where env = Map.empty]
  have 3: "neo4j_username Map.empty = ''neo4j'' \<and> neo4j_uri Map.empty = None \<and>
      neo4j_password Map.empty = None"
    by blast
  from 1 2 3 show ?thesis
    by (simp add: graph_database_driver_model_def getenv_def bolt_scheme supported_uri_schemes_def)
qed

end
